theory Spec2Isabelle
  imports Main
begin

section \<open>Errors\<close>

text \<open>
  Go error values. \<open>New\<close> is an error with a plain message (\<open>errors.New\<close>, or an error coming
  from the backend or the network), \<open>Wrap e msg\<close> is \<open>errors.Wrapf(e, msg)\<close> and \<open>Multi\<close> is
  the error list of \<open>go.uber.org/multierr\<close>. A nil error is \<open>None\<close> of \<open>err option\<close>.
\<close>

datatype err = New string | Wrap err string | Multi "err list"

fun joinSep :: "string \<Rightarrow> string list \<Rightarrow> string" where
  "joinSep sep [] = []"
| "joinSep sep [x] = x"
| "joinSep sep (x # y # ys) = x @ sep @ joinSep sep (y # ys)"

fun Error :: "err \<Rightarrow> string" where
  "Error (New s) = s"
| "Error (Wrap e msg) = msg @ '': '' @ Error e"
| "Error (Multi es) = joinSep ''; '' (map Error es)"

text \<open>\<open>multierr.Errors\<close> on a non-nil error: the members of a multi-error, else the error alone.\<close>

fun extractErrors :: "err \<Rightarrow> err list" where
  "extractErrors (Multi es) = es"
| "extractErrors e = [e]"

definition Errors :: "err option \<Rightarrow> err list" where
  "Errors e = (case e of None \<Rightarrow> [] | Some x \<Rightarrow> extractErrors x)"

text \<open>
  \<open>multierr.Append\<close> and \<open>multierr.Combine\<close>: nil errors are skipped, one remaining error is
  returned as it is, several are flattened by one level into a multi-error.
\<close>

definition Append :: "err option \<Rightarrow> err option \<Rightarrow> err option" where
  "Append left right =
     (case left of
        None \<Rightarrow> right
      | Some l \<Rightarrow>
          (case right of
             None \<Rightarrow> left
           | Some r \<Rightarrow> Some (Multi (extractErrors l @ extractErrors r))))"

definition Combine :: "err option list \<Rightarrow> err option" where
  "Combine errs =
     (case List.map_filter id errs of
        [] \<Rightarrow> None
      | [e] \<Rightarrow> Some e
      | es \<Rightarrow> Some (Multi (concat (map extractErrors es))))"

section \<open>Time and its text encoding\<close>

text \<open>
  A \<open>time.Time\<close> in UTC, by its calendar fields. \<open>Format\<close> is \<open>t.Format(unixFormat)\<close> with
  \<open>unixFormat = "2006-01-02T15:04:05Z"\<close>: the year padded to four digits, every other
  field to two, nanoseconds dropped.
\<close>

record time =
  year :: nat
  month :: nat
  day :: nat
  hour :: nat
  minute :: nat
  second :: nat
  nsec :: nat

definition digit :: "nat \<Rightarrow> char" where
  "digit d = char_of (48 + d)"

fun decimal :: "nat \<Rightarrow> string" where
  "decimal n = (if n < 10 then [digit n] else decimal (n div 10) @ [digit (n mod 10)])"

declare decimal.simps [simp del]

definition appendInt :: "nat \<Rightarrow> nat \<Rightarrow> string" where
  "appendInt x width = replicate (width - length (decimal x)) (CHR ''0'') @ decimal x"

definition Format :: "time \<Rightarrow> string" where
  "Format t =
     appendInt (year t) 4 @ ''-'' @ appendInt (month t) 2 @ ''-'' @ appendInt (day t) 2 @ ''T'' @
     appendInt (hour t) 2 @ '':'' @ appendInt (minute t) 2 @ '':'' @ appendInt (second t) 2 @ ''Z''"

text \<open>The fields of a time as Go keeps them in range; the year is one that prints in four digits.\<close>

definition valid_time :: "time \<Rightarrow> bool" where
  "valid_time t \<longleftrightarrow>
     year t \<le> 9999 \<and> 1 \<le> month t \<and> month t \<le> 12 \<and> 1 \<le> day t \<and> day t \<le> 31 \<and>
     hour t < 24 \<and> minute t < 60 \<and> second t < 60 \<and> nsec t < 1000000000"

text \<open>\<open>!t.After(u)\<close>: chronological order of two UTC times, field by field.\<close>

definition time_le :: "time \<Rightarrow> time \<Rightarrow> bool" where
  "time_le t u \<longleftrightarrow>
     year t < year u \<or> year t = year u \<and>
     (month t < month u \<or> month t = month u \<and>
     (day t < day u \<or> day t = day u \<and>
     (hour t < hour u \<or> hour t = hour u \<and>
     (minute t < minute u \<or> minute t = minute u \<and>
     (second t < second u \<or> second t = second u \<and> nsec t \<le> nsec u)))))"

definition zeroTime :: time where
  "zeroTime = \<lparr>year = 1, month = 1, day = 1, hour = 0, minute = 0, second = 0, nsec = 0\<rparr>"

text \<open>Byte-wise lexicographic order of strings, the order DynamoDB compares \<open>S\<close> values by.\<close>

fun bytes_le :: "string \<Rightarrow> string \<Rightarrow> bool" where
  "bytes_le [] ys = True"
| "bytes_le (x # xs) [] = False"
| "bytes_le (x # xs) (y # ys) =
     ((of_char x :: nat) < of_char y \<or> x = y \<and> bytes_le xs ys)"

text \<open>\<open>t.String()\<close> of a UTC time and \<open>%d\<close> of an integer, as \<open>ToString\<close> prints them.\<close>

definition fraction :: "nat \<Rightarrow> string" where
  "fraction n =
     (if n = 0 then []
      else CHR ''.'' # rev (dropWhile (\<lambda>c. c = CHR ''0'') (rev (appendInt n 9))))"

definition time_String :: "time \<Rightarrow> string" where
  "time_String t =
     appendInt (year t) 4 @ ''-'' @ appendInt (month t) 2 @ ''-'' @ appendInt (day t) 2 @ '' '' @
     appendInt (hour t) 2 @ '':'' @ appendInt (minute t) 2 @ '':'' @ appendInt (second t) 2 @
     fraction (nsec t) @ '' +0000 UTC''"

definition itoa :: "int \<Rightarrow> string" where
  "itoa i = (if i < 0 then ''-'' @ decimal (nat (- i)) else decimal (nat i))"

section \<open>Schema\<close>

record Response =
  Code :: int
  Body :: string

record ScheduledRequest =
  ID :: string
  CreatedAt :: time
  ExecutedAt :: time
  EffectiveAfter :: time
  Locking :: bool
  FailureReason :: string
  Method :: string
  URL :: string
  Payload :: string
  Headers :: "(string \<times> string) list"
  PersistentStore :: bool
  ExecutionResult :: string

definition req_ToString :: "ScheduledRequest \<Rightarrow> string" where
  "req_ToString req =
     ''id='' @ ID req @ '' effective_after='' @ time_String (EffectiveAfter req) @
     '' locking='' @ (if Locking req then ''true'' else ''false'')"

definition resp_ToString :: "Response \<Rightarrow> string" where
  "resp_ToString resp = ''code='' @ itoa (Code resp) @ '' body='' @ Body resp"

record Configuration =
  TableName :: string
  BaseURL :: string
  Token :: string
  UserAgent :: string

section \<open>The DynamoDB table\<close>

text \<open>
  An item is a map from attribute names to attribute values; the table is the list of its
  items, keyed by the \<open>S\<close> value of attribute \<open>ID\<close>. \<open>M\<close> carries a map of strings, the only
  map the schema has (\<open>Headers\<close>).
\<close>

datatype attr = S string | BOOL bool | NULL | M "(string \<times> string) list"

type_synonym item = "string \<rightharpoonup> attr"

text \<open>
  The filter expression of a scan, already parsed: \<open>"EffectiveAfter <= :d and Locking = :l"\<close>
  is \<open>And (Le (Attr EffectiveAfter) (Val :d)) (Eq (Attr Locking) (Val :l))\<close>. A comparison with
  a missing attribute or between values of different types is false.
\<close>

datatype operand = Attr string | Val string

datatype cond = Le operand operand | Eq operand operand | And cond cond

fun operand_value :: "(string \<times> attr) list \<Rightarrow> item \<Rightarrow> operand \<Rightarrow> attr option" where
  "operand_value vals it (Attr a) = it a"
| "operand_value vals it (Val p) = map_of vals p"

fun attr_le :: "attr \<Rightarrow> attr \<Rightarrow> bool" where
  "attr_le (S a) (S b) = bytes_le a b"
| "attr_le _ _ = False"

fun eval_cond :: "(string \<times> attr) list \<Rightarrow> cond \<Rightarrow> item \<Rightarrow> bool" where
  "eval_cond vals (Le x y) it =
     (case (operand_value vals it x, operand_value vals it y) of
        (Some a, Some b) \<Rightarrow> attr_le a b
      | _ \<Rightarrow> False)"
| "eval_cond vals (Eq x y) it =
     (case (operand_value vals it x, operand_value vals it y) of
        (Some a, Some b) \<Rightarrow> a = b
      | _ \<Rightarrow> False)"
| "eval_cond vals (And c d) it = (eval_cond vals c it \<and> eval_cond vals d it)"

text \<open>
  Every call that leaves the process: the five DynamoDB operations with their inputs
  (table name, key or filter, \<open>SET\<close> assignments, expression attribute values) and the call
  of the \<open>Requester\<close> interface.
\<close>

datatype call =
    Scan string cond "(string \<times> attr) list"
  | GetItem string string
  | UpdateItem string string "(string \<times> string) list" "(string \<times> attr) list"
  | DeleteItem string string
  | ClientDoRequest string string "(string \<times> string) list" string

record world =
  table :: "item list"
  calls :: "call list"

text \<open>
  What the program does not decide: whether the backend fails a call (\<open>db_fault\<close>, which may
  depend on the calls made so far), the clock, and the library functions whose results the
  code only passes on (\<open>time.Parse\<close>, \<open>json.Marshal\<close>, the \<open>GoString\<close> printers of the SDK).
\<close>

record env =
  db_fault :: "call list \<Rightarrow> call \<Rightarrow> err option"
  Now :: "call list \<Rightarrow> time"
  time_Parse :: "string \<Rightarrow> err + time"
  json_Marshal :: "Response \<Rightarrow> err + string"
  ScanInput_GoString :: "call \<Rightarrow> string"
  ScanOutput_GoString :: "item list \<Rightarrow> string"
  GetItemOutput_GoString :: "item \<Rightarrow> string"

type_synonym Requester =
  "call list \<Rightarrow> string \<Rightarrow> string \<Rightarrow> (string \<times> string) list \<Rightarrow> string \<Rightarrow> err + Response"

definition has_key :: "string \<Rightarrow> item \<Rightarrow> bool" where
  "has_key k it \<longleftrightarrow> it ''ID'' = Some (S k)"

definition logged :: "world \<Rightarrow> call \<Rightarrow> world" where
  "logged w c = w\<lparr>calls := calls w @ [c]\<rparr>"

text \<open>
  The backend, as the DynamoDB API documents it. A call is logged; if the backend fails it,
  the table is left as it was. \<open>Scan\<close> returns the items that satisfy the filter, the whole
  table read as one page. \<open>GetItem\<close> returns the item with the key, and an empty item with no
  error when there is none (the mock of the tests does the same: its \<open>GetItem\<close> fails only
  when the test sets \<open>getErr\<close>). \<open>UpdateItem\<close> applies the \<open>SET\<close> assignments to the item
  with the key and creates the item when there is none. \<open>DeleteItem\<close> removes the item with
  the key.
\<close>

definition conn_Scan ::
  "env \<Rightarrow> world \<Rightarrow> string \<Rightarrow> cond \<Rightarrow> (string \<times> attr) list \<Rightarrow> (err + item list) \<times> world" where
  "conn_Scan env w tableName flt vals =
     (let c = Scan tableName flt vals in
      case db_fault env (calls w) c of
        Some e \<Rightarrow> (Inl e, logged w c)
      | None \<Rightarrow> (Inr (filter (eval_cond vals flt) (table w)), logged w c))"

definition conn_GetItem :: "env \<Rightarrow> world \<Rightarrow> string \<Rightarrow> string \<Rightarrow> (err + item) \<times> world" where
  "conn_GetItem env w tableName k =
     (let c = GetItem tableName k in
      case db_fault env (calls w) c of
        Some e \<Rightarrow> (Inl e, logged w c)
      | None \<Rightarrow>
          (Inr (case find (has_key k) (table w) of None \<Rightarrow> Map.empty | Some it \<Rightarrow> it),
           logged w c))"

fun apply_set :: "(string \<times> string) list \<Rightarrow> (string \<times> attr) list \<Rightarrow> item \<Rightarrow> item" where
  "apply_set [] vals it = it"
| "apply_set ((a, p) # rest) vals it =
     apply_set rest vals (case map_of vals p of None \<Rightarrow> it | Some v \<Rightarrow> it(a \<mapsto> v))"

definition update_table ::
  "string \<Rightarrow> (string \<times> string) list \<Rightarrow> (string \<times> attr) list \<Rightarrow> item list \<Rightarrow> item list" where
  "update_table k assigns vals tab =
     (if list_ex (has_key k) tab
      then map (\<lambda>it. if has_key k it then apply_set assigns vals it else it) tab
      else tab @ [apply_set assigns vals (Map.empty(''ID'' \<mapsto> S k))])"

definition conn_UpdateItem ::
  "env \<Rightarrow> world \<Rightarrow> string \<Rightarrow> string \<Rightarrow> (string \<times> string) list \<Rightarrow> (string \<times> attr) list \<Rightarrow>
   err option \<times> world" where
  "conn_UpdateItem env w tableName k assigns vals =
     (let c = UpdateItem tableName k assigns vals in
      case db_fault env (calls w) c of
        Some e \<Rightarrow> (Some e, logged w c)
      | None \<Rightarrow> (None, (logged w c)\<lparr>table := update_table k assigns vals (table w)\<rparr>))"

definition conn_DeleteItem :: "env \<Rightarrow> world \<Rightarrow> string \<Rightarrow> string \<Rightarrow> err option \<times> world" where
  "conn_DeleteItem env w tableName k =
     (let c = DeleteItem tableName k in
      case db_fault env (calls w) c of
        Some e \<Rightarrow> (Some e, logged w c)
      | None \<Rightarrow> (None, (logged w c)\<lparr>table := filter (\<lambda>it. \<not> has_key k it) (table w)\<rparr>))"

section \<open>Decoding items\<close>

text \<open>
  \<open>dynamodbattribute.UnmarshalMap\<close> into a \<open>ScheduledRequest\<close>: a missing or \<open>NULL\<close> attribute
  leaves the field at its zero value, an attribute of another type than the field's is an
  error, a time is parsed from its \<open>S\<close> text.
\<close>

definition decodeString :: "attr option \<Rightarrow> err + string" where
  "decodeString a =
     (case a of
        None \<Rightarrow> Inr []
      | Some NULL \<Rightarrow> Inr []
      | Some (S s) \<Rightarrow> Inr s
      | Some _ \<Rightarrow> Inl (New ''UnmarshalTypeError''))"

definition decodeBool :: "attr option \<Rightarrow> err + bool" where
  "decodeBool a =
     (case a of
        None \<Rightarrow> Inr False
      | Some NULL \<Rightarrow> Inr False
      | Some (BOOL b) \<Rightarrow> Inr b
      | Some _ \<Rightarrow> Inl (New ''UnmarshalTypeError''))"

definition decodeTime :: "env \<Rightarrow> attr option \<Rightarrow> err + time" where
  "decodeTime env a =
     (case a of
        None \<Rightarrow> Inr zeroTime
      | Some NULL \<Rightarrow> Inr zeroTime
      | Some (S s) \<Rightarrow> time_Parse env s
      | Some _ \<Rightarrow> Inl (New ''UnmarshalTypeError''))"

definition decodeMap :: "attr option \<Rightarrow> err + (string \<times> string) list" where
  "decodeMap a =
     (case a of
        None \<Rightarrow> Inr []
      | Some NULL \<Rightarrow> Inr []
      | Some (M kvs) \<Rightarrow> Inr kvs
      | Some _ \<Rightarrow> Inl (New ''UnmarshalTypeError''))"

definition bind_err :: "err + 'a \<Rightarrow> ('a \<Rightarrow> err + 'b) \<Rightarrow> err + 'b" where
  "bind_err x f = (case x of Inl e \<Rightarrow> Inl e | Inr v \<Rightarrow> f v)"

definition UnmarshalMap :: "env \<Rightarrow> item \<Rightarrow> err + ScheduledRequest" where
  "UnmarshalMap env it =
     bind_err (decodeString (it ''ID'')) (\<lambda>v_id.
     bind_err (decodeTime env (it ''CreatedAt'')) (\<lambda>v_created.
     bind_err (decodeTime env (it ''ExecutedAt'')) (\<lambda>v_executed.
     bind_err (decodeTime env (it ''EffectiveAfter'')) (\<lambda>v_effective.
     bind_err (decodeBool (it ''Locking'')) (\<lambda>v_locking.
     bind_err (decodeString (it ''FailureReason'')) (\<lambda>v_failure.
     bind_err (decodeString (it ''Method'')) (\<lambda>v_method.
     bind_err (decodeString (it ''URL'')) (\<lambda>v_url.
     bind_err (decodeString (it ''Payload'')) (\<lambda>v_payload.
     bind_err (decodeMap (it ''Headers'')) (\<lambda>v_headers.
     bind_err (decodeBool (it ''PersistentStore'')) (\<lambda>v_persistent.
     bind_err (decodeString (it ''ExecutionResult'')) (\<lambda>v_result.
       Inr \<lparr>ID = v_id, CreatedAt = v_created, ExecutedAt = v_executed,
            EffectiveAfter = v_effective, Locking = v_locking, FailureReason = v_failure,
            Method = v_method, URL = v_url, Payload = v_payload, Headers = v_headers,
            PersistentStore = v_persistent, ExecutionResult = v_result\<rparr>))))))))))))"

fun UnmarshalListOfMaps :: "env \<Rightarrow> item list \<Rightarrow> err + ScheduledRequest list" where
  "UnmarshalListOfMaps env [] = Inr []"
| "UnmarshalListOfMaps env (it # its) =
     (case UnmarshalMap env it of
        Inl e \<Rightarrow> Inl e
      | Inr r \<Rightarrow>
          (case UnmarshalListOfMaps env its of
             Inl e \<Rightarrow> Inl e
           | Inr rs \<Rightarrow> Inr (r # rs)))"

section \<open>storage.go\<close>

definition due_filter :: cond where
  "due_filter = And (Le (Attr ''EffectiveAfter'') (Val '':d'')) (Eq (Attr ''Locking'') (Val '':l''))"

definition FetchSchedRequests ::
  "env \<Rightarrow> world \<Rightarrow> string \<Rightarrow> time \<Rightarrow> (err + ScheduledRequest list) \<times> world" where
  "FetchSchedRequests env w tableName current =
     (let currentStr = Format current;
          vals = [('':d'', S currentStr), ('':l'', BOOL False)]
      in case conn_Scan env w tableName due_filter vals of
           (Inl e, w1) \<Rightarrow>
             (Inl (Wrap e (''conn.Scan table_name='' @ tableName @ '' input='' @
                           ScanInput_GoString env (Scan tableName due_filter vals))), w1)
         | (Inr items, w1) \<Rightarrow>
             (case UnmarshalListOfMaps env items of
                Inl e \<Rightarrow>
                  (Inl (Wrap e (''dynamodbattribute.UnmarshalListOfMaps table_name='' @ tableName @
                                '' output='' @ ScanOutput_GoString env items)), w1)
              | Inr records \<Rightarrow> (Inr records, w1)))"

definition Get :: "env \<Rightarrow> world \<Rightarrow> string \<Rightarrow> string \<Rightarrow> (err + ScheduledRequest) \<times> world" where
  "Get env w tableName reqID =
     (case conn_GetItem env w tableName reqID of
        (Inl e, w1) \<Rightarrow>
          (Inl (Wrap e (''conn.GetItem table_name='' @ tableName @ '' id='' @ reqID)), w1)
      | (Inr it, w1) \<Rightarrow>
          (case UnmarshalMap env it of
             Inl e \<Rightarrow>
               (Inl (Wrap e (''dynamodbattribute.UnmarshalMap table_name='' @ tableName @
                             '' output='' @ GetItemOutput_GoString env it)), w1)
           | Inr req \<Rightarrow> (Inr req, w1)))"

definition updateResult ::
  "env \<Rightarrow> world \<Rightarrow> string \<Rightarrow> string \<Rightarrow> Response \<Rightarrow> time \<Rightarrow> err option \<times> world" where
  "updateResult env w tableName reqID resp current =
     (case json_Marshal env resp of
        Inl e \<Rightarrow> (Some (Wrap e (''json.Marshal resp '' @ resp_ToString resp)), w)
      | Inr result \<Rightarrow>
          (case conn_UpdateItem env w tableName reqID
                  [(''ExecutionResult'', '':r''), (''ExecutedAt'', '':e'')]
                  [('':r'', S result), ('':e'', S (Format current))] of
             (Some e, w1) \<Rightarrow>
               (Some (Wrap e (''conn.UpdateItem id='' @ reqID @ '' table_name='' @ tableName @
                              '' result='' @ result)), w1)
           | (None, w1) \<Rightarrow> (None, w1)))"

definition removeRequest :: "env \<Rightarrow> world \<Rightarrow> string \<Rightarrow> string \<Rightarrow> err option \<times> world" where
  "removeRequest env w tableName reqID =
     (case conn_DeleteItem env w tableName reqID of
        (Some e, w1) \<Rightarrow>
          (Some (Wrap e (''conn.DeleteItem id='' @ reqID @ '' table_name='' @ tableName)), w1)
      | (None, w1) \<Rightarrow> (None, w1))"

definition logFailure :: "env \<Rightarrow> world \<Rightarrow> string \<Rightarrow> string \<Rightarrow> err \<Rightarrow> err option \<times> world" where
  "logFailure env w tableName reqID lerr =
     (let failure = Error lerr
      in case conn_UpdateItem env w tableName reqID
                [(''FailureReason'', '':f'')] [('':f'', S failure)] of
           (Some e, w1) \<Rightarrow>
             (Some (Wrap e (''conn.UpdateItem id='' @ reqID @ '' table_name='' @ tableName @
                            '' failure_reason='' @ failure)), w1)
         | (None, w1) \<Rightarrow> (None, w1))"

definition setLocking :: "env \<Rightarrow> world \<Rightarrow> string \<Rightarrow> string \<Rightarrow> bool \<Rightarrow> err option \<times> world" where
  "setLocking env w tableName reqID status =
     (case conn_UpdateItem env w tableName reqID
             [(''Locking'', '':l'')] [('':l'', BOOL status)] of
        (Some e, w1) \<Rightarrow>
          (Some (Wrap e (''conn.UpdateItem id='' @ reqID @ '' table_name='' @ tableName)), w1)
      | (None, w1) \<Rightarrow> (None, w1))"

definition Lock :: "env \<Rightarrow> world \<Rightarrow> string \<Rightarrow> string \<Rightarrow> err option \<times> world" where
  "Lock env w tableName reqID = setLocking env w tableName reqID True"

definition Unlock :: "env \<Rightarrow> world \<Rightarrow> string \<Rightarrow> string \<Rightarrow> err option \<times> world" where
  "Unlock env w tableName reqID = setLocking env w tableName reqID False"

section \<open>http.go\<close>

text \<open>
  \<open>http.Header\<close> maps a canonical key to the list of its values. \<open>Add\<close> appends a value,
  \<open>Set\<close> replaces the list, \<open>Get\<close> reads the first value. A key made of header-field
  bytes only is canonicalised (first letter and every letter after a dash in upper case,
  the others in lower case); any other key is used as it is.
\<close>

type_synonym header = "string \<rightharpoonup> string list"

definition lowers :: string where
  "lowers = ''abcdefghijklmnopqrstuvwxyz''"

definition uppers :: string where
  "uppers = ''ABCDEFGHIJKLMNOPQRSTUVWXYZ''"

definition validHeaderFieldByte :: "char \<Rightarrow> bool" where
  "validHeaderFieldByte c \<longleftrightarrow>
     c \<in> set (lowers @ uppers @ ''0123456789'' @ ''!#$%&*+-.^_|~'' @ [CHR 0x27, CHR 0x60])"

definition toUpper :: "char \<Rightarrow> char" where
  "toUpper c = (case map_of (zip lowers uppers) c of None \<Rightarrow> c | Some u \<Rightarrow> u)"

definition toLower :: "char \<Rightarrow> char" where
  "toLower c = (case map_of (zip uppers lowers) c of None \<Rightarrow> c | Some l \<Rightarrow> l)"

fun canonicalMIMEHeaderKey :: "bool \<Rightarrow> string \<Rightarrow> string" where
  "canonicalMIMEHeaderKey upper [] = []"
| "canonicalMIMEHeaderKey upper (c # cs) =
     (let c' = (if upper then toUpper c else toLower c)
      in c' # canonicalMIMEHeaderKey (c' = CHR ''-'') cs)"

definition CanonicalMIMEHeaderKey :: "string \<Rightarrow> string" where
  "CanonicalMIMEHeaderKey s =
     (if list_all validHeaderFieldByte s then canonicalMIMEHeaderKey True s else s)"

definition header_Add :: "string \<Rightarrow> string \<Rightarrow> header \<Rightarrow> header" where
  "header_Add key v h =
     (let k = CanonicalMIMEHeaderKey key
      in h(k \<mapsto> (case h k of None \<Rightarrow> [] | Some vs \<Rightarrow> vs) @ [v]))"

definition header_Set :: "string \<Rightarrow> string \<Rightarrow> header \<Rightarrow> header" where
  "header_Set key v h = h(CanonicalMIMEHeaderKey key \<mapsto> [v])"

definition header_Get :: "header \<Rightarrow> string \<Rightarrow> string" where
  "header_Get h key =
     (case h (CanonicalMIMEHeaderKey key) of
        None \<Rightarrow> []
      | Some [] \<Rightarrow> []
      | Some (v # vs) \<Rightarrow> v)"

record Request =
  req_Method :: string
  req_URL :: string
  Header :: header
  req_Body :: string

record RawResponse =
  StatusCode :: int
  ReadAll :: "err + string"
  Close :: "err option"

text \<open>
  The standard library under the client: \<open>url.Parse\<close>, \<open>ResolveReference\<close> followed by
  \<open>String\<close>, the checks of \<open>http.NewRequest\<close> on method and URL, and \<open>Do\<close>, the round trip. A
  parsed URL is kept as its text.
\<close>

record net =
  url_Parse :: "string \<Rightarrow> err + string"
  ResolveReference :: "string \<Rightarrow> string \<Rightarrow> string"
  http_NewRequest :: "string \<Rightarrow> string \<Rightarrow> err option"
  Do :: "call list \<Rightarrow> Request \<Rightarrow> err + RawResponse"

record HTTPClient =
  baseURL :: string
  userAgent :: string
  token :: string

text \<open>The headers of the outgoing request, lines 70 to 79 of \<open>DoRequest\<close>.\<close>

definition requestHeader :: "HTTPClient \<Rightarrow> (string \<times> string) list \<Rightarrow> header" where
  "requestHeader c headers =
     (let h0 = foldl (\<lambda>h (k, v). header_Add k v h) Map.empty headers;
          h1 = (if userAgent c \<noteq> [] then header_Add ''User-Agent'' (userAgent c) h0 else h0)
      in if token c \<noteq> [] then header_Set ''Authorization'' (''Bearer '' @ token c) h1 else h1)"

definition DoRequest :: "net \<Rightarrow> HTTPClient \<Rightarrow> Requester" where
  "DoRequest nt c history method urlStr headers body =
     (case url_Parse nt urlStr of
        Inl e \<Rightarrow> Inl (Wrap e (''url.Parse rawurl='' @ urlStr))
      | Inr rel \<Rightarrow>
          (let u = ResolveReference nt (baseURL c) rel
           in case http_NewRequest nt method u of
                Some e \<Rightarrow> Inl (Wrap e (''http.NewRequest method='' @ method @ '' url='' @ u))
              | None \<Rightarrow>
                  (case Do nt history \<lparr>req_Method = method, req_URL = u,
                                        Header = requestHeader c headers, req_Body = body\<rparr> of
                     Inl e \<Rightarrow> Inl (Wrap e ''c.Do'')
                   | Inr resp \<Rightarrow>
                       (case ReadAll resp of
                          Inl e \<Rightarrow> Inl (Wrap e ''ioutil.ReadAll resp.Body'')
                        | Inr raw \<Rightarrow> Inr \<lparr>Code = StatusCode resp, Body = raw\<rparr>))))"

definition execRequest ::
  "Requester \<Rightarrow> world \<Rightarrow> ScheduledRequest \<Rightarrow> (err + Response) \<times> world" where
  "execRequest client w req =
     (let w1 = logged w (ClientDoRequest (Method req) (URL req) (Headers req) (Payload req))
      in case client (calls w) (Method req) (URL req) (Headers req) (Payload req) of
           Inl e \<Rightarrow>
             (Inl (Wrap e (''client.DoRequest method='' @ Method req @ '' url='' @ URL req)), w1)
         | Inr resp \<Rightarrow> (Inr resp, w1))"

section \<open>The dispatch engine\<close>

definition execute ::
  "env \<Rightarrow> Requester \<Rightarrow> world \<Rightarrow> ScheduledRequest \<Rightarrow> string \<Rightarrow> err option \<times> world" where
  "execute env client w req tbl =
     (case Lock env w tbl (ID req) of
        (Some e, w1) \<Rightarrow> (Some (Wrap e (''lock id='' @ ID req @ '' table_name='' @ tbl)), w1)
      | (None, w1) \<Rightarrow>
          (case execRequest client w1 req of
             (Inl e, w2) \<Rightarrow>
               (let err1 = Wrap e (''execRequest '' @ req_ToString req)
                in case logFailure env w2 tbl (ID req) err1 of
                     (lf, w3) \<Rightarrow> (Append (Some err1) lf, w3))
           | (Inr resp, w2) \<Rightarrow>
               (if PersistentStore req
                then (case updateResult env w2 tbl (ID req) resp (Now env (calls w2)) of
                        (Some e, w3) \<Rightarrow>
                          (Some (Wrap e (''storeResult req['' @ req_ToString req @ ''] resp['' @
                                         resp_ToString resp @ '']'')), w3)
                      | (None, w3) \<Rightarrow> (None, w3))
                else (case removeRequest env w2 tbl (ID req) of
                        (Some e, w3) \<Rightarrow> (Some (Wrap e (''removeRequest '' @ req_ToString req)), w3)
                      | (None, w3) \<Rightarrow> (None, w3)))))"

text \<open>
  One pass. The tasks of the due records share nothing but the store and each works on
  its own record, so the pass is modelled with the tasks run one after the other in the
  order of the list; \<open>run_tasks\<close> returns what was sent on the error channel, \<open>collect\<close> is
  the loop that receives it.
\<close>

definition task_error :: "ScheduledRequest \<Rightarrow> string \<Rightarrow> err \<Rightarrow> err" where
  "task_error req tbl gErr = Wrap gErr (''execute '' @ req_ToString req @ '' table_name='' @ tbl)"

fun run_tasks ::
  "env \<Rightarrow> Requester \<Rightarrow> string \<Rightarrow> world \<Rightarrow> ScheduledRequest list \<Rightarrow> err list \<times> world" where
  "run_tasks env client tbl w [] = ([], w)"
| "run_tasks env client tbl w (req # reqs) =
     (case execute env client w req tbl of
        (gErr, w1) \<Rightarrow>
          (case run_tasks env client tbl w1 reqs of
             (errc, w2) \<Rightarrow>
               ((case gErr of None \<Rightarrow> [] | Some g \<Rightarrow> [task_error req tbl g]) @ errc, w2)))"

definition collect :: "err option \<Rightarrow> err list \<Rightarrow> err option" where
  "collect err errc = foldl (\<lambda>acc gErr. Combine [acc, Some gErr]) err errc"

definition TriggerAPI ::
  "env \<Rightarrow> Configuration \<Rightarrow> Requester \<Rightarrow> world \<Rightarrow> err option \<times> world" where
  "TriggerAPI env conf client w =
     (case FetchSchedRequests env w (TableName conf) (Now env (calls w)) of
        (Inl e, w1) \<Rightarrow> (Some (Wrap e ''fetchSchedRequests''), w1)
      | (Inr requests, w1) \<Rightarrow>
          (case run_tasks env client (TableName conf) w1 requests of
             (errc, w2) \<Rightarrow> (collect None errc, w2)))"

section \<open>Vocabulary of the properties\<close>

text \<open>
  An item that holds a record the way the schema persists it: it decodes to the record, and
  its \<open>EffectiveAfter\<close> and \<open>Locking\<close> attributes are the record's, the time as whole seconds
  in the text \<open>Format\<close> writes.
\<close>

definition stored :: "env \<Rightarrow> item \<Rightarrow> ScheduledRequest \<Rightarrow> bool" where
  "stored env it r \<longleftrightarrow>
     UnmarshalMap env it = Inr r \<and>
     it ''EffectiveAfter'' = Some (S (Format (EffectiveAfter r))) \<and>
     it ''Locking'' = Some (BOOL (Locking r)) \<and>
     valid_time (EffectiveAfter r) \<and> nsec (EffectiveAfter r) = 0"

text \<open>The calls the tasks of a pass make, named after the function that makes them.\<close>

definition due_call :: "string \<Rightarrow> time \<Rightarrow> call" where
  "due_call tbl now = Scan tbl due_filter [('':d'', S (Format now)), ('':l'', BOOL False)]"

definition locking_call :: "string \<Rightarrow> string \<Rightarrow> bool \<Rightarrow> call" where
  "locking_call tbl k status = UpdateItem tbl k [(''Locking'', '':l'')] [('':l'', BOOL status)]"

definition failure_call :: "string \<Rightarrow> string \<Rightarrow> string \<Rightarrow> call" where
  "failure_call tbl k reason =
     UpdateItem tbl k [(''FailureReason'', '':f'')] [('':f'', S reason)]"

definition result_call :: "string \<Rightarrow> string \<Rightarrow> string \<Rightarrow> string \<Rightarrow> call" where
  "result_call tbl k result executed =
     UpdateItem tbl k [(''ExecutionResult'', '':r''), (''ExecutedAt'', '':e'')]
       [('':r'', S result), ('':e'', S executed)]"

definition client_call :: "ScheduledRequest \<Rightarrow> call" where
  "client_call req = ClientDoRequest (Method req) (URL req) (Headers req) (Payload req)"

text \<open>The error \<open>execute\<close> makes of an error \<open>e\<close> of the \<open>Requester\<close>.\<close>

definition exec_error :: "ScheduledRequest \<Rightarrow> err \<Rightarrow> err" where
  "exec_error req e =
     Wrap (Wrap e (''client.DoRequest method='' @ Method req @ '' url='' @ URL req))
       (''execRequest '' @ req_ToString req)"

text \<open>The outcome of each task of a pass, in the order the tasks run.\<close>

fun outcomes ::
  "env \<Rightarrow> Requester \<Rightarrow> string \<Rightarrow> world \<Rightarrow> ScheduledRequest list \<Rightarrow> err option list" where
  "outcomes env client tbl w [] = []"
| "outcomes env client tbl w (req # reqs) =
     (case execute env client w req tbl of (gErr, w1) \<Rightarrow> gErr # outcomes env client tbl w1 reqs)"

text \<open>
  A step of a task failed: the claim, or the execution, or the write that finalises a
  successful execution.
\<close>

definition step_failed ::
  "env \<Rightarrow> Requester \<Rightarrow> world \<Rightarrow> ScheduledRequest \<Rightarrow> string \<Rightarrow> bool" where
  "step_failed env client w req tbl =
     (case Lock env w tbl (ID req) of
        (Some e, w1) \<Rightarrow> True
      | (None, w1) \<Rightarrow>
          (case execRequest client w1 req of
             (Inl e, w2) \<Rightarrow> True
           | (Inr resp, w2) \<Rightarrow>
               (if PersistentStore req
                then fst (updateResult env w2 tbl (ID req) resp (Now env (calls w2))) \<noteq> None
                else fst (removeRequest env w2 tbl (ID req)) \<noteq> None)))"

text \<open>The record with key \<open>k\<close> as the table holds it.\<close>

definition lookup :: "world \<Rightarrow> string \<Rightarrow> item option" where
  "lookup w k = find (has_key k) (table w)"

text \<open>The values a caller gives for the header with canonical key \<open>K\<close>, in the caller's order.\<close>

definition caller_values :: "(string \<times> string) list \<Rightarrow> string \<Rightarrow> string list" where
  "caller_values headers K = map snd (filter (\<lambda>(k, v). CanonicalMIMEHeaderKey k = K) headers)"

section \<open>An example environment\<close>

text \<open>
  A backend that never fails, a fixed clock, a parser for the text \<open>Format\<close> writes and an
  encoder for responses whose body needs no escaping; the worked examples below run the
  program in it.
\<close>

definition digit_val :: "char \<Rightarrow> nat option" where
  "digit_val c =
     (let n = (of_char c :: nat) in if 48 \<le> n \<and> n \<le> 57 then Some (n - 48) else None)"

definition number :: "string \<Rightarrow> nat option" where
  "number cs =
     foldl (\<lambda>acc c. case (acc, digit_val c) of (Some a, Some d) \<Rightarrow> Some (10 * a + d) | _ \<Rightarrow> None)
       (Some 0) cs"

definition parse_utc :: "string \<Rightarrow> err + time" where
  "parse_utc s =
     (if length s = 20 \<and> s ! 4 = CHR ''-'' \<and> s ! 7 = CHR ''-'' \<and> s ! 10 = CHR ''T'' \<and>
         s ! 13 = CHR '':'' \<and> s ! 16 = CHR '':'' \<and> s ! 19 = CHR ''Z''
      then (case (number (take 4 s), number (take 2 (drop 5 s)), number (take 2 (drop 8 s)),
                  number (take 2 (drop 11 s)), number (take 2 (drop 14 s)),
                  number (take 2 (drop 17 s))) of
              (Some y, Some mo, Some d, Some h, Some mi, Some sec) \<Rightarrow>
                Inr \<lparr>year = y, month = mo, day = d, hour = h, minute = mi, second = sec, nsec = 0\<rparr>
            | _ \<Rightarrow> Inl (New ''parsing time''))
      else Inl (New ''parsing time''))"

definition json_plain :: "Response \<Rightarrow> err + string" where
  "json_plain resp =
     Inr (''{'' @ [CHR 0x22] @ ''code'' @ [CHR 0x22] @ '':'' @ itoa (Code resp) @ '','' @
          [CHR 0x22] @ ''body'' @ [CHR 0x22] @ '':'' @ [CHR 0x22] @ Body resp @ [CHR 0x22] @ ''}'')"

definition clock0 :: time where
  "clock0 = \<lparr>year = 2018, month = 9, day = 3, hour = 0, minute = 2, second = 3, nsec = 500\<rparr>"

definition env0 :: env where
  "env0 = \<lparr>db_fault = (\<lambda>history c. None), Now = (\<lambda>history. clock0), time_Parse = parse_utc,
            json_Marshal = json_plain, ScanInput_GoString = (\<lambda>c. ''{}''),
            ScanOutput_GoString = (\<lambda>items. ''{}''), GetItemOutput_GoString = (\<lambda>it. ''{}'')\<rparr>"

definition item_of :: "string \<Rightarrow> string \<Rightarrow> bool \<Rightarrow> bool \<Rightarrow> item" where
  "item_of k effective locking persistent =
     [''ID'' \<mapsto> S k, ''EffectiveAfter'' \<mapsto> S effective, ''Locking'' \<mapsto> BOOL locking,
      ''Method'' \<mapsto> S ''GET'', ''URL'' \<mapsto> S ''/ping'', ''PersistentStore'' \<mapsto> BOOL persistent]"

definition record_of :: "string \<Rightarrow> time \<Rightarrow> bool \<Rightarrow> bool \<Rightarrow> ScheduledRequest" where
  "record_of k effective locking persistent =
     \<lparr>ID = k, CreatedAt = zeroTime, ExecutedAt = zeroTime, EffectiveAfter = effective,
      Locking = locking, FailureReason = [], Method = ''GET'', URL = ''/ping'', Payload = [],
      Headers = [], PersistentStore = persistent, ExecutionResult = []\<rparr>"

definition past0 :: time where
  "past0 = \<lparr>year = 2018, month = 9, day = 2, hour = 0, minute = 2, second = 3, nsec = 0\<rparr>"

definition future0 :: time where
  "future0 = \<lparr>year = 2018, month = 9, day = 4, hour = 0, minute = 2, second = 3, nsec = 0\<rparr>"

definition conf0 :: Configuration where
  "conf0 = \<lparr>TableName = ''tbl'', BaseURL = [], Token = [], UserAgent = []\<rparr>"

definition client0 :: Requester where
  "client0 history method urlStr headers body = Inr \<lparr>Code = 200, Body = []\<rparr>"

text \<open>A backend that fails every update of the record \<open>X\<close>, and one that fails every scan.\<close>

definition envX :: env where
  "envX = env0\<lparr>db_fault :=
     (\<lambda>history c. case c of
        UpdateItem t k assigns vals \<Rightarrow> if k = ''X'' then Some (New ''Internal error'') else None
      | _ \<Rightarrow> None)\<rparr>"

definition envS :: env where
  "envS = env0\<lparr>db_fault :=
     (\<lambda>history c. case c of Scan t flt vals \<Rightarrow> Some (New ''internal error'') | _ \<Rightarrow> None)\<rparr>"

definition tableYX :: "item list" where
  "tableYX = [item_of ''Y'' ''2018-09-02T00:02:03Z'' False False,
              item_of ''X'' ''2018-09-02T00:02:03Z'' False False]"

text \<open>A client whose call fails, and a backend that fails every write of a failure reason.\<close>

definition clientF :: Requester where
  "clientF history method urlStr headers body = Inl (New ''Request error'')"

definition envFR :: env where
  "envFR = env0\<lparr>db_fault :=
     (\<lambda>history c. case c of
        UpdateItem t k assigns vals \<Rightarrow>
          if assigns = [(''FailureReason'', '':f'')] then Some (New ''Internal error'') else None
      | _ \<Rightarrow> None)\<rparr>"

text \<open>The encoding of the response of \<open>client0\<close>.\<close>

definition json200 :: string where
  "json200 = ''{'' @ [CHR 0x22] @ ''code'' @ [CHR 0x22] @ '':200,'' @ [CHR 0x22] @ ''body'' @
             [CHR 0x22] @ '':'' @ [CHR 0x22, CHR 0x22] @ ''}''"

definition tableP :: "item list" where
  "tableP = [item_of ''P'' ''2018-09-02T00:02:03Z'' False True]"

text \<open>A backend that fails every point lookup.\<close>

definition envG :: env where
  "envG = env0\<lparr>db_fault :=
     (\<lambda>history c. case c of
        GetItem t k \<Rightarrow> Some (New ''ResourceNotFoundException'')
      | _ \<Rightarrow> None)\<rparr>"

text \<open>
  A client with a configured user agent and token, one with a user agent only, and a
  network on which every call completes with status 500.
\<close>

definition httpUT :: HTTPClient where
  "httpUT = \<lparr>baseURL = ''http://api'', userAgent = ''citium'', token = ''secret''\<rparr>"

definition httpU :: HTTPClient where
  "httpU = \<lparr>baseURL = ''http://api'', userAgent = ''citium'', token = []\<rparr>"

definition net500 :: net where
  "net500 = \<lparr>url_Parse = (\<lambda>s. Inr s), ResolveReference = (\<lambda>base rel. base @ rel),
             http_NewRequest = (\<lambda>method u. None),
             Do = (\<lambda>history r. Inr \<lparr>StatusCode = 500, ReadAll = Inr ''Internal Server Error'',
                                     Close = None\<rparr>)\<rparr>"

text \<open>
  A network whose server answers 200 with the \<open>User-Agent\<close> it reads from the request, as
  the handlers of the tests read it with \<open>Get\<close>.
\<close>

definition netEcho :: net where
  "netEcho = \<lparr>url_Parse = (\<lambda>s. Inr s), ResolveReference = (\<lambda>base rel. base @ rel),
              http_NewRequest = (\<lambda>method u. None),
              Do = (\<lambda>history r. Inr \<lparr>StatusCode = 200,
                                      ReadAll = Inr (header_Get (Header r) ''User-Agent''),
                                      Close = None\<rparr>)\<rparr>"


section \<open>The text encoding of times preserves their order\<close>

lemma of_char_digit: "d < 10 \<Longrightarrow> (of_char (digit d) :: nat) = 48 + d"
  by (simp add: digit_def)

lemma digit_inj: "a < 10 \<Longrightarrow> b < 10 \<Longrightarrow> digit a = digit b \<longleftrightarrow> a = b"
  by (metis of_char_digit add_left_cancel)

lemma digit0: "digit 0 = CHR ''0''"
  by code_simp

lemma decimal1: "n < 10 \<Longrightarrow> decimal n = [digit n]"
  by (simp add: decimal.simps [of n])

lemma decimal2:
  assumes "10 \<le> n" "n < 100"
  shows "decimal n = [digit (n div 10), digit (n mod 10)]"
proof -
  from assms have "n div 10 < 10" by simp
  then have "decimal (n div 10) = [digit (n div 10)]" by (rule decimal1)
  moreover from assms have "decimal n = decimal (n div 10) @ [digit (n mod 10)]"
    by (simp add: decimal.simps [of n])
  ultimately show ?thesis by simp
qed

lemma decimal3:
  assumes "100 \<le> n" "n < 1000"
  shows "decimal n = [digit (n div 100), digit (n div 10 mod 10), digit (n mod 10)]"
proof -
  from assms have "10 \<le> n div 10" "n div 10 < 100" by simp_all
  then have "decimal (n div 10) = [digit (n div 10 div 10), digit (n div 10 mod 10)]"
    by (rule decimal2)
  moreover have "n div 10 div 10 = n div 100" by (simp add: div_mult2_eq [symmetric])
  moreover from assms have "decimal n = decimal (n div 10) @ [digit (n mod 10)]"
    by (simp add: decimal.simps [of n])
  ultimately show ?thesis by simp
qed

lemma decimal4:
  assumes "1000 \<le> n" "n \<le> 9999"
  shows "decimal n = [digit (n div 1000), digit (n div 100 mod 10), digit (n div 10 mod 10), digit (n mod 10)]"
proof -
  from assms have "100 \<le> n div 10" "n div 10 < 1000" by simp_all
  then have "decimal (n div 10) =
      [digit (n div 10 div 100), digit (n div 10 div 10 mod 10), digit (n div 10 mod 10)]"
    by (rule decimal3)
  moreover have "n div 10 div 100 = n div 1000" by (simp add: div_mult2_eq [symmetric])
  moreover have "n div 10 div 10 = n div 100" by (simp add: div_mult2_eq [symmetric])
  moreover from assms have "decimal n = decimal (n div 10) @ [digit (n mod 10)]"
    by (simp add: decimal.simps [of n])
  ultimately show ?thesis by simp
qed

lemma replicate3: "replicate 3 c = [c, c, c]"
  by (simp add: numeral_3_eq_3)

lemma replicate2: "replicate 2 c = [c, c]"
  by (simp add: numeral_2_eq_2)

lemma appendInt2: 
  assumes "n < 100" 
  shows "appendInt n 2 = [digit (n div 10), digit (n mod 10)]"
proof (cases "n < 10")
  case True
  then show ?thesis by (simp add: appendInt_def decimal1 digit0)
next
  case False
  with assms show ?thesis by (simp add: appendInt_def decimal2)
qed

lemma appendInt4:
  assumes "n \<le> 9999"
  shows "appendInt n 4 = [digit (n div 1000), digit (n div 100 mod 10), digit (n div 10 mod 10), digit (n mod 10)]"
proof -
  consider "n < 10" | "10 \<le> n" "n < 100" | "100 \<le> n" "n < 1000" | "1000 \<le> n"
    by linarith
  then show ?thesis
  proof cases
    case 1
    then show ?thesis by (simp add: appendInt_def decimal1 digit0 replicate3)
  next
    case 2
    then have "n div 100 = 0" "n div 1000 = 0" by simp_all
    with 2 show ?thesis
      by (simp add: appendInt_def decimal2 digit0 replicate2)
  next
    case 3
    then have "n div 1000 = 0" by simp
    with 3 show ?thesis
      by (simp add: appendInt_def decimal3 digit0)
  next
    case 4
    with assms show ?thesis
      by (simp add: appendInt_def decimal4)
  qed
qed

lemma bytes_le_append:
  "length a = length b \<Longrightarrow>
   bytes_le (a @ x) (b @ y) = (a \<noteq> b \<and> bytes_le a b \<or> a = b \<and> bytes_le x y)"
  by (induction a b rule: list_induct2) auto

lemma pair2_le:
  assumes "a < 100" "b < 100"
  shows "appendInt a 2 \<noteq> appendInt b 2 \<and> bytes_le (appendInt a 2) (appendInt b 2) \<longleftrightarrow> a < b"
    and "appendInt a 2 = appendInt b 2 \<longleftrightarrow> a = b"
    and "length (appendInt a 2) = length (appendInt b 2)"
proof -
  from assms have d: "a div 10 < 10" "b div 10 < 10" "a mod 10 < 10" "b mod 10 < 10" by simp_all
  have s: "a = 10 * (a div 10) + a mod 10" "b = 10 * (b div 10) + b mod 10" by simp_all
  show "appendInt a 2 = appendInt b 2 \<longleftrightarrow> a = b"
    using assms d s by (simp add: appendInt2 digit_inj) (metis s)
  then show "appendInt a 2 \<noteq> appendInt b 2 \<and> bytes_le (appendInt a 2) (appendInt b 2) \<longleftrightarrow> a < b"
    using assms d by (simp add: appendInt2 digit_inj of_char_digit) (use s in linarith)
  show "length (appendInt a 2) = length (appendInt b 2)"
    using assms by (simp add: appendInt2)
qed

lemma lex_divmod100:
  "(a div 100 < b div 100 \<or> a div 100 = b div 100 \<and> a mod 100 < b mod 100) \<longleftrightarrow> (a::nat) < b"
proof -
  have "a = 100 * (a div 100) + a mod 100" "b = 100 * (b div 100) + b mod 100" by simp_all
  moreover have "a mod 100 < 100" "b mod 100 < 100" by simp_all
  ultimately show ?thesis by linarith
qed

lemma mod100_div10: "(a::nat) mod 100 div 10 = a div 10 mod 10"
  by (simp add: mod_mult2_eq [of a 10 10, simplified])

lemma mod100_mod10: "(a::nat) mod 100 mod 10 = a mod 10"
  by (simp add: mod_mod_cancel)

lemma div100_div10: "(a::nat) div 100 div 10 = a div 1000"
  by (simp add: div_mult2_eq [symmetric])

lemma appendInt4_split:
  assumes "a \<le> 9999"
  shows "appendInt a 4 = appendInt (a div 100) 2 @ appendInt (a mod 100) 2"
proof -
  from assms have "a div 100 < 100" "a mod 100 < 100" by simp_all
  with assms show ?thesis by (simp add: appendInt4 appendInt2 mod100_div10 mod100_mod10 div100_div10)
qed

lemma field2:
  assumes "a < 100" "b < 100"
  shows "bytes_le (appendInt a 2 @ x) (appendInt b 2 @ y) \<longleftrightarrow> a < b \<or> a = b \<and> bytes_le x y"
  using bytes_le_append [OF pair2_le(3) [OF assms], of x y] pair2_le(1) [OF assms] pair2_le(2) [OF assms]
  by blast

lemma field4:
  assumes "a \<le> 9999" "b \<le> 9999"
  shows "bytes_le (appendInt a 4 @ x) (appendInt b 4 @ y) \<longleftrightarrow> a < b \<or> a = b \<and> bytes_le x y"
proof -
  from assms have d: "a div 100 < 100" "b div 100 < 100" "a mod 100 < 100" "b mod 100 < 100"
    by simp_all
  have "bytes_le (appendInt a 4 @ x) (appendInt b 4 @ y) \<longleftrightarrow>
        bytes_le (appendInt (a div 100) 2 @ appendInt (a mod 100) 2 @ x)
                 (appendInt (b div 100) 2 @ appendInt (b mod 100) 2 @ y)"
    by (simp only: appendInt4_split [OF assms(1)] appendInt4_split [OF assms(2)] append_assoc)
  also have "\<dots> \<longleftrightarrow> a div 100 < b div 100 \<or> a div 100 = b div 100 \<and>
        (a mod 100 < b mod 100 \<or> a mod 100 = b mod 100 \<and> bytes_le x y)"
    by (simp only: field2 [OF d(1) d(2)] field2 [OF d(3) d(4)])
  also have "\<dots> \<longleftrightarrow> a < b \<or> a = b \<and> bytes_le x y"
  proof -
    have "a = 100 * (a div 100) + a mod 100" "b = 100 * (b div 100) + b mod 100" by simp_all
    then have "a = b \<longleftrightarrow> a div 100 = b div 100 \<and> a mod 100 = b mod 100" by metis
    with lex_divmod100 [of a b] show ?thesis by blast
  qed
  finally show ?thesis .
qed

lemma Format_le:
  assumes "valid_time t" "valid_time u"
  shows "bytes_le (Format t) (Format u) \<longleftrightarrow> time_le (t\<lparr>nsec := 0\<rparr>) u"
proof -
  from assms have b: "year t \<le> 9999" "year u \<le> 9999" "month t < 100" "month u < 100"
    "day t < 100" "day u < 100" "hour t < 100" "hour u < 100" "minute t < 100" "minute u < 100"
    "second t < 100" "second u < 100"
    by (simp_all add: valid_time_def)
  show ?thesis
    unfolding Format_def time_le_def
    by (simp add: field4 [OF b(1,2)] field2 [OF b(3,4)] field2 [OF b(5,6)] field2 [OF b(7,8)]
         field2 [OF b(9,10)] field2 [OF b(11,12)])
qed

section \<open>The backend calls of the storage functions\<close>

lemma logged_simps [simp]: "calls (logged w c) = calls w @ [c]" "table (logged w c) = table w"
  by (simp_all add: logged_def)

lemma setLocking_cases:
  "setLocking env w tbl k b =
     (case db_fault env (calls w) (locking_call tbl k b) of
        Some e \<Rightarrow> (Some (Wrap e (''conn.UpdateItem id='' @ k @ '' table_name='' @ tbl)),
                   logged w (locking_call tbl k b))
      | None \<Rightarrow> (None, (logged w (locking_call tbl k b))
                   \<lparr>table := update_table k [(''Locking'', '':l'')] [('':l'', BOOL b)] (table w)\<rparr>))"
  by (simp add: setLocking_def conn_UpdateItem_def locking_call_def Let_def split: option.split)

lemma logFailure_cases:
  "logFailure env w tbl k lerr =
     (case db_fault env (calls w) (failure_call tbl k (Error lerr)) of
        Some e \<Rightarrow> (Some (Wrap e (''conn.UpdateItem id='' @ k @ '' table_name='' @ tbl @
                      '' failure_reason='' @ Error lerr)),
                   logged w (failure_call tbl k (Error lerr)))
      | None \<Rightarrow> (None, (logged w (failure_call tbl k (Error lerr)))
                   \<lparr>table := update_table k [(''FailureReason'', '':f'')] [('':f'', S (Error lerr))] (table w)\<rparr>))"
  by (simp add: logFailure_def conn_UpdateItem_def failure_call_def Let_def split: option.split)

lemma updateResult_cases:
  "json_Marshal env resp = Inr result \<Longrightarrow>
   updateResult env w tbl k resp current =
     (case db_fault env (calls w) (result_call tbl k result (Format current)) of
        Some e \<Rightarrow> (Some (Wrap e (''conn.UpdateItem id='' @ k @ '' table_name='' @ tbl @
                      '' result='' @ result)),
                   logged w (result_call tbl k result (Format current)))
      | None \<Rightarrow> (None, (logged w (result_call tbl k result (Format current)))
                   \<lparr>table := update_table k [(''ExecutionResult'', '':r''), (''ExecutedAt'', '':e'')]
                       [('':r'', S result), ('':e'', S (Format current))] (table w)\<rparr>))"
  by (simp add: updateResult_def conn_UpdateItem_def result_call_def Let_def split: option.split)

lemma removeRequest_cases:
  "removeRequest env w tbl k =
     (case db_fault env (calls w) (DeleteItem tbl k) of
        Some e \<Rightarrow> (Some (Wrap e (''conn.DeleteItem id='' @ k @ '' table_name='' @ tbl)),
                   logged w (DeleteItem tbl k))
      | None \<Rightarrow> (None, (logged w (DeleteItem tbl k))
                   \<lparr>table := filter (\<lambda>it. \<not> has_key k it) (table w)\<rparr>))"
  by (simp add: removeRequest_def conn_DeleteItem_def Let_def split: option.split)

lemma execRequest_cases:
  "execRequest client w req =
     (case client (calls w) (Method req) (URL req) (Headers req) (Payload req) of
        Inl e \<Rightarrow> (Inl (Wrap e (''client.DoRequest method='' @ Method req @ '' url='' @ URL req)),
                  logged w (client_call req))
      | Inr resp \<Rightarrow> (Inr resp, logged w (client_call req)))"
  by (simp add: execRequest_def client_call_def Let_def split: sum.split)

lemma Lock_Some:
  assumes "Lock env w tbl k = (Some e, w1)"
  shows "w1 = logged w (locking_call tbl k True)"
  using assms by (simp add: Lock_def setLocking_cases split: option.splits)

lemma Lock_None:
  assumes "Lock env w tbl k = (None, w1)"
  shows "w1 = (logged w (locking_call tbl k True))
           \<lparr>table := update_table k [(''Locking'', '':l'')] [('':l'', BOOL True)] (table w)\<rparr>"
  using assms by (simp add: Lock_def setLocking_cases split: option.splits)

lemma execute_lock_fails:
  "Lock env w tbl (ID req) = (Some e, w1) \<Longrightarrow>
   execute env client w req tbl =
     (Some (Wrap e (''lock id='' @ ID req @ '' table_name='' @ tbl)), w1)"
  by (simp add: execute_def)

lemma execute_exec_fails:
  "Lock env w tbl (ID req) = (None, w1) \<Longrightarrow> execRequest client w1 req = (Inl e, w2) \<Longrightarrow>
   execute env client w req tbl =
     (Append (Some (Wrap e (''execRequest '' @ req_ToString req)))
        (fst (logFailure env w2 tbl (ID req) (Wrap e (''execRequest '' @ req_ToString req)))),
      snd (logFailure env w2 tbl (ID req) (Wrap e (''execRequest '' @ req_ToString req))))"
  by (simp add: execute_def Let_def split: prod.split)

lemma execute_persistent:
  "Lock env w tbl (ID req) = (None, w1) \<Longrightarrow> execRequest client w1 req = (Inr resp, w2) \<Longrightarrow>
   PersistentStore req \<Longrightarrow>
   execute env client w req tbl =
     (case updateResult env w2 tbl (ID req) resp (Now env (calls w2)) of
        (Some e, w3) \<Rightarrow>
          (Some (Wrap e (''storeResult req['' @ req_ToString req @ ''] resp['' @
                         resp_ToString resp @ '']'')), w3)
      | (None, w3) \<Rightarrow> (None, w3))"
  by (simp add: execute_def)

lemma execute_transient:
  "Lock env w tbl (ID req) = (None, w1) \<Longrightarrow> execRequest client w1 req = (Inr resp, w2) \<Longrightarrow>
   \<not> PersistentStore req \<Longrightarrow>
   execute env client w req tbl =
     (case removeRequest env w2 tbl (ID req) of
        (Some e, w3) \<Rightarrow> (Some (Wrap e (''removeRequest '' @ req_ToString req)), w3)
      | (None, w3) \<Rightarrow> (None, w3))"
  by (simp add: execute_def)

lemma run_tasks_append:
  "run_tasks env client tbl w (xs @ ys) =
     (case run_tasks env client tbl w xs of
        (e1, w1) \<Rightarrow> (case run_tasks env client tbl w1 ys of (e2, w2) \<Rightarrow> (e1 @ e2, w2)))"
  by (induction xs arbitrary: w) (simp_all split: prod.split)

lemma run_tasks_Cons:
  "run_tasks env client tbl w (req # reqs) =
     ((case fst (execute env client w req tbl) of None \<Rightarrow> [] | Some g \<Rightarrow> [task_error req tbl g]) @
        fst (run_tasks env client tbl (snd (execute env client w req tbl)) reqs),
      snd (run_tasks env client tbl (snd (execute env client w req tbl)) reqs))"
  by (simp split: prod.split)

lemma outcomes_Cons:
  "outcomes env client tbl w (req # reqs) =
     fst (execute env client w req tbl) #
     outcomes env client tbl (snd (execute env client w req tbl)) reqs"
  by (simp split: prod.split)

lemma run_tasks_Wrap:
  "g \<in> set (fst (run_tasks env client tbl w reqs)) \<Longrightarrow> \<exists>e msg. g = Wrap e msg"
proof (induction reqs arbitrary: w)
  case Nil
  then show ?case by simp
next
  case (Cons req reqs)
  then show ?case
    by (auto simp: run_tasks_Cons task_error_def simp del: run_tasks.simps(2) split: option.splits)
qed

lemma Errors_Combine_Wrap:
  "Errors (Combine [acc, Some (Wrap e msg)]) = Errors acc @ [Wrap e msg]"
  by (cases acc) (simp_all add: Combine_def Errors_def List.map_filter_simps)

lemma Errors_collect:
  "\<forall>g \<in> set errc. \<exists>e msg. g = Wrap e msg \<Longrightarrow> Errors (collect acc errc) = Errors acc @ errc"
proof (induction errc arbitrary: acc)
  case Nil
  then show ?case by (simp add: collect_def)
next
  case (Cons g errc)
  then obtain e msg where g: "g = Wrap e msg" by auto
  have "collect acc (g # errc) = collect (Combine [acc, Some g]) errc"
    by (simp add: collect_def)
  with Cons g show ?case by (simp add: Errors_Combine_Wrap)
qed

lemma collect_None_iff:
  assumes "\<forall>g \<in> set errc. \<exists>e msg. g = Wrap e msg"
  shows "collect None errc = None \<longleftrightarrow> errc = []"
proof
  assume "errc = []" then show "collect None errc = None" by (simp add: collect_def)
next
  assume "collect None errc = None"
  with Errors_collect [OF assms, of None] show "errc = []" by (simp add: Errors_def)
qed

lemma TriggerAPI_ok:
  assumes "FetchSchedRequests env w (TableName conf) (Now env (calls w)) = (Inr requests, w0)"
  shows "TriggerAPI env conf client w =
           (collect None (fst (run_tasks env client (TableName conf) w0 requests)),
            snd (run_tasks env client (TableName conf) w0 requests))"
  using assms by (simp add: TriggerAPI_def split: prod.split)

lemma TriggerAPI_Errors:
  assumes "FetchSchedRequests env w (TableName conf) (Now env (calls w)) = (Inr requests, w0)"
  shows "Errors (fst (TriggerAPI env conf client w)) =
         fst (run_tasks env client (TableName conf) w0 requests)"
proof -
  have "\<forall>g \<in> set (fst (run_tasks env client (TableName conf) w0 requests)). \<exists>e msg. g = Wrap e msg"
    using run_tasks_Wrap by blast
  from Errors_collect [OF this, of None] show ?thesis
    by (simp add: TriggerAPI_ok [OF assms] Errors_def)
qed

lemma run_tasks_outcomes:
  "fst (run_tasks env client tbl w reqs) =
   concat (map2 (\<lambda>r g. case g of None \<Rightarrow> [] | Some e \<Rightarrow> [task_error r tbl e]) reqs
             (outcomes env client tbl w reqs))"
  by (induction reqs arbitrary: w)
    (simp_all add: run_tasks_Cons outcomes_Cons del: run_tasks.simps(2) outcomes.simps(2))

lemma run_tasks_Nil_iff:
  "fst (run_tasks env client tbl w reqs) = [] \<longleftrightarrow>
   (\<forall>g \<in> set (outcomes env client tbl w reqs). g = None)"
  by (induction reqs arbitrary: w)
    (auto simp: run_tasks_Cons outcomes_Cons simp del: run_tasks.simps(2) outcomes.simps(2)
       split: option.splits)

section \<open>The due query\<close>

lemma due_filter_stored:
  assumes "stored env it r" "valid_time now"
  shows "eval_cond [('':d'', S (Format now)), ('':l'', BOOL False)] due_filter it \<longleftrightarrow>
         time_le (EffectiveAfter r) now \<and> \<not> Locking r"
proof -
  from assms(1) have ea: "it ''EffectiveAfter'' = Some (S (Format (EffectiveAfter r)))"
    and lk: "it ''Locking'' = Some (BOOL (Locking r))"
    and v: "valid_time (EffectiveAfter r)" and z: "nsec (EffectiveAfter r) = 0"
    by (simp_all add: stored_def)
  from z have "(EffectiveAfter r)\<lparr>nsec := 0\<rparr> = EffectiveAfter r" by simp
  with Format_le [OF v assms(2)]
  have "bytes_le (Format (EffectiveAfter r)) (Format now) \<longleftrightarrow> time_le (EffectiveAfter r) now"
    by simp
  then show ?thesis
    by (simp add: due_filter_def ea lk)
qed

lemma Unmarshal_due:
  assumes "list_all2 (stored env) items recs" "valid_time now"
  shows "UnmarshalListOfMaps env
           (filter (eval_cond [('':d'', S (Format now)), ('':l'', BOOL False)] due_filter) items) =
         Inr (filter (\<lambda>r. time_le (EffectiveAfter r) now \<and> \<not> Locking r) recs)"
  using assms(1)
proof (induction rule: list_all2_induct)
  case Nil
  then show ?case by simp
next
  case (Cons it items r recs)
  from Cons.hyps(1) have "UnmarshalMap env it = Inr r" by (simp add: stored_def)
  with Cons.IH due_filter_stored [OF Cons.hyps(1) assms(2)] show ?case by simp
qed

lemma FetchSchedRequests_due:
  assumes "db_fault env (calls w) (due_call tableName now) = None"
    and "list_all2 (stored env) (table w) recs"
    and "valid_time now"
  shows "FetchSchedRequests env w tableName now =
           (Inr (filter (\<lambda>r. time_le (EffectiveAfter r) now \<and> \<not> Locking r) recs),
            logged w (due_call tableName now))"
  using assms(1) Unmarshal_due [OF assms(2,3)]
  by (simp add: FetchSchedRequests_def conn_Scan_def due_call_def Let_def)

lemma FetchSchedRequests_world:
  "FetchSchedRequests env w tableName now = (x, w0) \<Longrightarrow> w0 = logged w (due_call tableName now)"
  by (auto simp: FetchSchedRequests_def conn_Scan_def due_call_def Let_def
      split: option.splits sum.splits)

section \<open>Evaluating the example environment\<close>

lemma Format_past0: "Format past0 = ''2018-09-02T00:02:03Z''"
  by code_simp

lemma Format_future0: "Format future0 = ''2018-09-04T00:02:03Z''"
  by code_simp

lemma Format_clock0: "Format clock0 = ''2018-09-03T00:02:03Z''"
  by code_simp

lemma parse_past0: "parse_utc ''2018-09-02T00:02:03Z'' = Inr past0"
  by code_simp

lemma parse_future0: "parse_utc ''2018-09-04T00:02:03Z'' = Inr future0"
  by code_simp

lemma valid_examples: "valid_time clock0" "valid_time past0" "valid_time future0"
  by (simp_all add: valid_time_def clock0_def past0_def future0_def)

lemma Unmarshal_item_of:
  "time_Parse env e = Inr t \<Longrightarrow> UnmarshalMap env (item_of k e l p) = Inr (record_of k t l p)"
  by (simp add: item_of_def record_of_def UnmarshalMap_def bind_err_def decodeString_def
      decodeBool_def decodeTime_def decodeMap_def)

lemma stored_item_of:
  "time_Parse env (Format t) = Inr t \<Longrightarrow> valid_time t \<Longrightarrow> nsec t = 0 \<Longrightarrow>
   stored env (item_of k (Format t) l p) (record_of k t l p)"
  by (simp add: stored_def Unmarshal_item_of) (simp add: item_of_def record_of_def)

section \<open>Outcomes of a task and of a pass\<close>

lemma Append_Some_left_ex: "\<exists>y. Append (Some a) r = Some y"
  by (simp add: Append_def split: option.split)

lemma execute_fails_iff:
  "fst (execute env client w req tbl) \<noteq> None \<longleftrightarrow> step_failed env client w req tbl"
  by (auto simp: execute_def step_failed_def Let_def Append_Some_left_ex
      split: prod.splits option.splits sum.splits)

lemma Error_extract: "Error a = joinSep ''; '' (map Error (extractErrors a))"
  by (cases a) simp_all

lemma stored_tableYX:
  "list_all2 (stored env) tableYX [record_of ''Y'' past0 False False, record_of ''X'' past0 False False]"
  if "time_Parse env = parse_utc"
  using stored_item_of [of env past0] that
  by (simp add: tableYX_def Format_past0 parse_past0 valid_examples) (simp add: past0_def)

lemma Lock_envX:
  "Lock envX w tbl ''X'' =
     (Some (Wrap (New ''Internal error'') (''conn.UpdateItem id=X table_name='' @ tbl)),
      logged w (locking_call tbl ''X'' True))"
  by (simp add: Lock_def setLocking_cases) (simp add: envX_def locking_call_def)

lemma fetch_envX:
  "FetchSchedRequests envX \<lparr>table = tableYX, calls = []\<rparr> (TableName conf0)
     (Now envX (calls \<lparr>table = tableYX, calls = []\<rparr>)) =
   (Inr ([record_of ''Y'' past0 False False] @ record_of ''X'' past0 False False # []),
    logged \<lparr>table = tableYX, calls = []\<rparr> (due_call ''tbl'' clock0))"
proof -
  let ?w = "\<lparr>table = tableYX, calls = []\<rparr>"
  let ?Y = "record_of ''Y'' past0 False False"
  let ?X = "record_of ''X'' past0 False False"
  have f: "db_fault envX (calls ?w) (due_call ''tbl'' clock0) = None"
    by (simp add: envX_def env0_def due_call_def)
  have s: "list_all2 (stored envX) (table ?w) [?Y, ?X]"
    using stored_tableYX [of envX] by (simp add: envX_def env0_def)
  have flt: "filter (\<lambda>r. time_le (EffectiveAfter r) clock0 \<and> \<not> Locking r) [?Y, ?X] = [?Y] @ ?X # []"
    by (simp add: time_le_def record_of_def past0_def clock0_def)
  have n: "Now envX (calls ?w) = clock0" "TableName conf0 = ''tbl''"
    by (simp_all add: envX_def env0_def conf0_def)
  have "FetchSchedRequests envX ?w ''tbl'' clock0 =
          (Inr (filter (\<lambda>r. time_le (EffectiveAfter r) clock0 \<and> \<not> Locking r) [?Y, ?X]),
           logged ?w (due_call ''tbl'' clock0))"
    by (rule FetchSchedRequests_due [OF f s valid_examples(1)])
  then show ?thesis by (simp only: flt n)
qed

lemma fetch_env0_empty:
  "FetchSchedRequests env0 \<lparr>table = [], calls = []\<rparr> (TableName conf0)
     (Now env0 (calls \<lparr>table = [], calls = []\<rparr>)) =
   (Inr [], logged \<lparr>table = [], calls = []\<rparr> (due_call ''tbl'' clock0))"
  by (simp add: FetchSchedRequests_def conn_Scan_def env0_def conf0_def due_call_def)

section \<open>The table after an update\<close>

lemma apply_set_other: "a \<notin> fst ` set assigns \<Longrightarrow> apply_set assigns vals it a = it a"
  by (induction assigns vals it rule: apply_set.induct) (auto split: option.splits)

lemma has_key_apply_set:
  "''ID'' \<notin> fst ` set assigns \<Longrightarrow> has_key k (apply_set assigns vals it) = has_key k it"
  by (simp add: has_key_def apply_set_other)

lemma find_map_key:
  assumes "\<And>it. has_key k (f it) = has_key k it"
  shows "find (has_key k) (map (\<lambda>it. if has_key k it then f it else it) tab) =
         map_option f (find (has_key k) tab)"
  by (induction tab) (simp_all add: assms)

lemma find_append_new:
  "\<not> list_ex (has_key k) tab \<Longrightarrow> has_key k x \<Longrightarrow> find (has_key k) (tab @ [x]) = Some x"
  by (induction tab) simp_all

lemma find_None_iff_ex: "find P xs = None \<longleftrightarrow> \<not> list_ex P xs"
  by (induction xs) simp_all

lemma lookup_update_table:
  assumes "''ID'' \<notin> fst ` set assigns"
  shows "find (has_key k) (update_table k assigns vals tab) =
         Some (apply_set assigns vals
                 (case find (has_key k) tab of None \<Rightarrow> [''ID'' \<mapsto> S k] | Some it \<Rightarrow> it))"
proof (cases "list_ex (has_key k) tab")
  case True
  then obtain it where "find (has_key k) tab = Some it"
    using find_None_iff_ex [of "has_key k" tab] by (cases "find (has_key k) tab") auto
  with True show ?thesis
    by (simp add: update_table_def find_map_key has_key_apply_set [OF assms])
next
  case False
  then have n: "find (has_key k) tab = None" by (simp add: find_None_iff_ex)
  have "has_key k (apply_set assigns vals [''ID'' \<mapsto> S k])"
    by (simp add: has_key_apply_set [OF assms]) (simp add: has_key_def)
  with False n show ?thesis
    by (simp add: update_table_def find_append_new)
qed

lemma lookup_filter_key: "find (has_key k) (filter (\<lambda>it. \<not> has_key k it) tab) = None"
  by (induction tab) simp_all

lemma lookup_logged [simp]: "lookup (logged w c) k = lookup w k"
  by (simp add: lookup_def)

lemma lookup_table_upd [simp]: "lookup (w\<lparr>table := tab\<rparr>) k = find (has_key k) tab"
  by (simp add: lookup_def)

lemma Lock_None_lookup:
  assumes "Lock env w tbl k = (None, w1)"
  shows "\<exists>it. lookup w1 k = Some it \<and> it ''Locking'' = Some (BOOL True)"
  using Lock_None [OF assms] by (simp add: lookup_update_table)

lemma Error_exec_error:
  "Error (exec_error req e) =
     ''execRequest '' @ req_ToString req @ '': client.DoRequest method='' @ Method req @
     '' url='' @ URL req @ '': '' @ Error e"
  by (simp add: exec_error_def)

lemma execRequest_Inl:
  "client (calls w) (Method req) (URL req) (Headers req) (Payload req) = Inl e \<Longrightarrow>
   execRequest client w req =
     (Inl (Wrap e (''client.DoRequest method='' @ Method req @ '' url='' @ URL req)),
      logged w (client_call req))"
  by (simp add: execRequest_cases)

lemma execRequest_Inr:
  "client (calls w) (Method req) (URL req) (Headers req) (Payload req) = Inr resp \<Longrightarrow>
   execRequest client w req = (Inr resp, logged w (client_call req))"
  by (simp add: execRequest_cases)

section \<open>Locking and decoding\<close>

lemma Lock_no_fault:
  "db_fault env (calls w) (locking_call tbl k True) = None \<Longrightarrow>
   Lock env w tbl k = (None, snd (Lock env w tbl k))"
  by (simp add: Lock_def setLocking_cases)

lemma Unmarshal_ExecutionResult:
  "UnmarshalMap env it = Inr rec \<Longrightarrow> it ''ExecutionResult'' = Some (S x) \<Longrightarrow>
   ExecutionResult rec = x"
  by (auto simp: UnmarshalMap_def bind_err_def decodeString_def split: sum.splits)

lemma Unmarshal_Locking:
  "UnmarshalMap env it = Inr rec \<Longrightarrow> it ''Locking'' = Some (BOOL b) \<Longrightarrow> Locking rec = b"
  by (auto simp: UnmarshalMap_def bind_err_def decodeBool_def split: sum.splits)

lemma Get_Inr:
  "fst (Get env w tbl k) = Inr rec \<Longrightarrow>
   UnmarshalMap env (case lookup w k of None \<Rightarrow> Map.empty | Some it \<Rightarrow> it) = Inr rec"
  by (auto simp: Get_def conn_GetItem_def lookup_def Let_def split: option.splits sum.splits)

section \<open>The tables the updates leave\<close>

lemma decimal_200: "decimal 200 = ''200''"
  by code_simp

lemma json_plain_200: "json_plain \<lparr>Code = 200, Body = []\<rparr> = Inr json200"
  by (simp add: json_plain_def itoa_def decimal_200 json200_def)

lemma setLocking_table:
  "table (snd (setLocking env w tbl k b)) =
     (if db_fault env (calls w) (locking_call tbl k b) = None
      then update_table k [(''Locking'', '':l'')] [('':l'', BOOL b)] (table w) else table w)"
  by (simp add: setLocking_cases split: option.split)

lemma logFailure_table:
  "table (snd (logFailure env w tbl k lerr)) =
     (if db_fault env (calls w) (failure_call tbl k (Error lerr)) = None
      then update_table k [(''FailureReason'', '':f'')] [('':f'', S (Error lerr))] (table w)
      else table w)"
  by (simp add: logFailure_cases split: option.split)

lemma updateResult_table:
  "json_Marshal env resp = Inr result \<Longrightarrow>
   table (snd (updateResult env w tbl k resp current)) =
     (if db_fault env (calls w) (result_call tbl k result (Format current)) = None
      then update_table k [(''ExecutionResult'', '':r''), (''ExecutedAt'', '':e'')]
             [('':r'', S result), ('':e'', S (Format current))] (table w)
      else table w)"
  by (simp add: updateResult_cases split: option.split)

section \<open>The headers of a request\<close>

lemma canon_UA: "CanonicalMIMEHeaderKey ''User-Agent'' = ''User-Agent''"
  by code_simp

lemma canon_Auth: "CanonicalMIMEHeaderKey ''Authorization'' = ''Authorization''"
  by code_simp

lemma header_Add_apply:
  "header_Add key v h K =
     (if K = CanonicalMIMEHeaderKey key
      then Some ((case h K of None \<Rightarrow> [] | Some vs \<Rightarrow> vs) @ [v]) else h K)"
  by (simp add: header_Add_def Let_def)

lemma header_Set_apply:
  "header_Set key v h K = (if K = CanonicalMIMEHeaderKey key then Some [v] else h K)"
  by (simp add: header_Set_def)

lemma foldl_header_Add:
  "foldl (\<lambda>h (k, v). header_Add k v h) h0 headers K =
     (if caller_values headers K = [] then h0 K
      else Some ((case h0 K of None \<Rightarrow> [] | Some xs \<Rightarrow> xs) @ caller_values headers K))"
proof (induction headers arbitrary: h0)
  case Nil
  then show ?case by (simp add: caller_values_def)
next
  case (Cons kv headers)
  obtain k v where kv: "kv = (k, v)" by (cases kv)
  show ?case
    by (simp add: kv Cons.IH) (simp add: caller_values_def header_Add_apply)
qed

lemma requestHeader_values:
  "requestHeader c headers K =
     (if token c \<noteq> [] \<and> K = ''Authorization'' then Some [''Bearer '' @ token c]
      else if userAgent c \<noteq> [] \<and> K = ''User-Agent''
           then Some (caller_values headers K @ [userAgent c])
      else if caller_values headers K = [] then None
      else Some (caller_values headers K))"
proof -
  let ?h = "foldl (\<lambda>h (k, v). header_Add k v h) Map.empty headers"
  have h: "?h K' = (if caller_values headers K' = [] then None else Some (caller_values headers K'))"
    for K' by (simp add: foldl_header_Add)
  have ua: "header_Add ''User-Agent'' u ?h K' =
      (if K' = ''User-Agent'' then Some (caller_values headers K' @ [u]) else ?h K')" for u K'
    by (simp add: header_Add_apply canon_UA h)
  show ?thesis
    unfolding requestHeader_def Let_def
    by (simp add: header_Set_apply canon_Auth ua h)
qed

section \<open>Requests that complete\<close>

lemma DoRequest_completes:
  assumes "url_Parse nt urlStr = Inr rel"
    and "http_NewRequest nt method (ResolveReference nt (baseURL c) rel) = None"
    and "Do nt history \<lparr>req_Method = method, req_URL = ResolveReference nt (baseURL c) rel,
            Header = requestHeader c headers, req_Body = body\<rparr> = Inr raw"
    and "ReadAll raw = Inr text"
  shows "DoRequest nt c history method urlStr headers body =
           Inr \<lparr>Code = StatusCode raw, Body = text\<rparr>"
  using assms by (simp add: DoRequest_def Let_def)


section \<open>The properties\<close>

text \<open>
  C1. The due query returns exactly the records whose \<open>EffectiveAfter\<close> is at or before the
  current time and whose \<open>Locking\<close> is false: when the scan succeeds on a table whose items
  hold the records \<open>recs\<close> in the persisted layout (times of whole seconds, written as
  \<open>Format\<close> writes them), \<open>FetchSchedRequests\<close> returns the due and unlocked ones among
  \<open>recs\<close>, and no other record, whatever its other attributes are. The comparison is made
  on the texts, byte by byte, and is the chronological one for years of four digits.
\<close>

theorem C1_due_query:
  assumes "db_fault env (calls w) (due_call tableName now) = None"
    and "list_all2 (stored env) (table w) recs"
    and "valid_time now"
  shows "fst (FetchSchedRequests env w tableName now) =
           Inr (filter (\<lambda>r. time_le (EffectiveAfter r) now \<and> \<not> Locking r) recs)"
  by (simp add: FetchSchedRequests_due [OF assms])

theorem C1_due_query_witness:
  "fst (FetchSchedRequests env0
     \<lparr>table = [item_of ''A'' ''2018-09-02T00:02:03Z'' False False,
               item_of ''B'' ''2018-09-04T00:02:03Z'' False False,
               item_of ''C'' ''2018-09-02T00:02:03Z'' True False], calls = []\<rparr> ''tbl'' clock0) =
   Inr [record_of ''A'' past0 False False]"
proof -
  have p: "time_Parse env0 (Format past0) = Inr past0"
    "time_Parse env0 (Format future0) = Inr future0"
    by (simp_all add: env0_def Format_past0 Format_future0 parse_past0 parse_future0)
  have z: "nsec past0 = 0" "nsec future0 = 0" by (simp_all add: past0_def future0_def)
  have s: "list_all2 (stored env0)
     (table \<lparr>table = [item_of ''A'' ''2018-09-02T00:02:03Z'' False False,
               item_of ''B'' ''2018-09-04T00:02:03Z'' False False,
               item_of ''C'' ''2018-09-02T00:02:03Z'' True False], calls = []\<rparr>)
     [record_of ''A'' past0 False False, record_of ''B'' future0 False False,
      record_of ''C'' past0 True False]"
    using stored_item_of [OF p(1) valid_examples(2) z(1)]
      stored_item_of [OF p(2) valid_examples(3) z(2)]
    by (simp add: Format_past0 Format_future0)
  have f: "db_fault env0 (calls \<lparr>table = [item_of ''A'' ''2018-09-02T00:02:03Z'' False False,
               item_of ''B'' ''2018-09-04T00:02:03Z'' False False,
               item_of ''C'' ''2018-09-02T00:02:03Z'' True False], calls = []\<rparr>)
       (due_call ''tbl'' clock0) = None"
    by (simp add: env0_def)
  show ?thesis
    using C1_due_query [OF f s valid_examples(1)]
    by (simp add: time_le_def record_of_def past0_def future0_def clock0_def)
qed

text \<open>
  C2. When the claim write of a due record fails, its task ends there: \<open>execute\<close> returns the
  wrapped error of \<open>Lock\<close>, the only call the task has made is that \<open>UpdateItem\<close> (the
  \<open>Requester\<close> is not called and no write that finalises is attempted), the table is as it
  was, and the error, wrapped by \<open>TriggerAPI\<close>, is one of the errors of the aggregate.
\<close>

theorem C2_claim_failure:
  assumes fetch: "FetchSchedRequests env w (TableName conf) (Now env (calls w)) =
                    (Inr (pre @ req # post), w0)"
    and pre: "run_tasks env client (TableName conf) w0 pre = (errs, w1)"
    and lock: "Lock env w1 (TableName conf) (ID req) = (Some e, w2)"
  shows "execute env client w1 req (TableName conf) =
           (Some (Wrap e (''lock id='' @ ID req @ '' table_name='' @ TableName conf)), w2) \<and>
         calls w2 = calls w1 @ [locking_call (TableName conf) (ID req) True] \<and>
         table w2 = table w1 \<and>
         task_error req (TableName conf)
           (Wrap e (''lock id='' @ ID req @ '' table_name='' @ TableName conf))
           \<in> set (Errors (fst (TriggerAPI env conf client w)))"
proof -
  have x: "execute env client w1 req (TableName conf) =
           (Some (Wrap e (''lock id='' @ ID req @ '' table_name='' @ TableName conf)), w2)"
    by (rule execute_lock_fails [OF lock])
  have w2: "w2 = logged w1 (locking_call (TableName conf) (ID req) True)"
    by (rule Lock_Some [OF lock])
  have "fst (run_tasks env client (TableName conf) w0 (pre @ req # post)) =
        errs @ task_error req (TableName conf)
           (Wrap e (''lock id='' @ ID req @ '' table_name='' @ TableName conf)) #
        fst (run_tasks env client (TableName conf) w2 post)"
    by (simp add: run_tasks_append pre run_tasks_Cons x del: run_tasks.simps(2))
  with TriggerAPI_Errors [OF fetch, of client] x w2 show ?thesis by simp
qed

theorem C2_claim_failure_witness:
  "task_error (record_of ''X'' past0 False False) ''tbl''
     (Wrap (Wrap (New ''Internal error'') ''conn.UpdateItem id=X table_name=tbl'')
        ''lock id=X table_name=tbl'')
     \<in> set (Errors (fst (TriggerAPI envX conf0 client0 \<lparr>table = tableYX, calls = []\<rparr>)))"
proof -
  let ?wa = "logged \<lparr>table = tableYX, calls = []\<rparr> (due_call ''tbl'' clock0)"
  let ?Y = "record_of ''Y'' past0 False False"
  let ?X = "record_of ''X'' past0 False False"
  let ?wb = "snd (run_tasks envX client0 ''tbl'' ?wa [?Y])"
  have pre: "run_tasks envX client0 (TableName conf0) ?wa [?Y] =
               (fst (run_tasks envX client0 ''tbl'' ?wa [?Y]), ?wb)"
    by (simp add: conf0_def)
  have lock: "Lock envX ?wb (TableName conf0) (ID ?X) =
      (Some (Wrap (New ''Internal error'') ''conn.UpdateItem id=X table_name=tbl''),
       logged ?wb (locking_call ''tbl'' ''X'' True))"
    using Lock_envX [of ?wb "''tbl''"] by (simp add: conf0_def record_of_def)
  from C2_claim_failure [OF fetch_envX pre lock] show ?thesis
    by (simp add: conf0_def record_of_def)
qed

text \<open>
  C3. When the claim of a record succeeds and its execution fails, the task calls the
  \<open>Requester\<close> and then writes the failure reason, and makes no other call (neither the
  result is stored nor the record removed). The reason is the text of the execution error,
  which ends with the text of the client's error and is not empty. The record stays in the
  table with \<open>Locking\<close> true. The task returns the execution error, and when the write of
  the reason fails too, the multi-error of both.
\<close>

theorem C3_execution_failure:
  assumes lock: "Lock env w tbl (ID req) = (None, w1)"
    and exec: "client (calls w1) (Method req) (URL req) (Headers req) (Payload req) = Inl e"
    and res: "execute env client w req tbl = (r, w3)"
  shows "calls w3 =
           calls w1 @ [client_call req, failure_call tbl (ID req) (Error (exec_error req e))] \<and>
         Error (exec_error req e) =
           ''execRequest '' @ req_ToString req @ '': client.DoRequest method='' @ Method req @
           '' url='' @ URL req @ '': '' @ Error e \<and>
         Error (exec_error req e) \<noteq> [] \<and>
         (\<exists>it. lookup w3 (ID req) = Some it \<and> it ''Locking'' = Some (BOOL True)) \<and>
         (db_fault env (calls w1 @ [client_call req])
            (failure_call tbl (ID req) (Error (exec_error req e))) = None \<longrightarrow>
          r = Some (exec_error req e)) \<and>
         (\<forall>e2. db_fault env (calls w1 @ [client_call req])
                 (failure_call tbl (ID req) (Error (exec_error req e))) = Some e2 \<longrightarrow>
           r = Some (Multi [exec_error req e,
                  Wrap e2 (''conn.UpdateItem id='' @ ID req @ '' table_name='' @ tbl @
                           '' failure_reason='' @ Error (exec_error req e))]))"
proof -
  let ?w2 = "logged w1 (client_call req)"
  let ?err = "exec_error req e"
  from Lock_None_lookup [OF lock] obtain it
    where it: "lookup w1 (ID req) = Some it" "it ''Locking'' = Some (BOOL True)" by blast
  have x: "execute env client w req tbl =
             (Append (Some ?err) (fst (logFailure env ?w2 tbl (ID req) ?err)),
              snd (logFailure env ?w2 tbl (ID req) ?err))"
    using execute_exec_fails [OF lock execRequest_Inl [of client w1 req e, OF exec]] by (simp add: exec_error_def)
  show ?thesis
  proof (cases "db_fault env (calls ?w2) (failure_call tbl (ID req) (Error ?err))")
    case None
    then have "logFailure env ?w2 tbl (ID req) ?err =
        (None, (logged ?w2 (failure_call tbl (ID req) (Error ?err)))
           \<lparr>table := update_table (ID req) [(''FailureReason'', '':f'')]
                        [('':f'', S (Error ?err))] (table ?w2)\<rparr>)"
      by (simp add: logFailure_cases)
    with x res None it show ?thesis
      by (auto simp: Append_def Error_exec_error lookup_update_table lookup_def)
  next
    case (Some e2)
    then have "logFailure env ?w2 tbl (ID req) ?err =
        (Some (Wrap e2 (''conn.UpdateItem id='' @ ID req @ '' table_name='' @ tbl @
                        '' failure_reason='' @ Error ?err)),
         logged ?w2 (failure_call tbl (ID req) (Error ?err)))"
      by (simp add: logFailure_cases)
    with x res Some it show ?thesis
      by (auto simp: Append_def Error_exec_error exec_error_def)
  qed
qed

theorem C3_execution_failure_witness:
  "fst (execute env0 clientF \<lparr>table = tableYX, calls = []\<rparr> (record_of ''X'' past0 False False)
          ''tbl'') =
     Some (exec_error (record_of ''X'' past0 False False) (New ''Request error'')) \<and>
   fst (execute envFR clientF \<lparr>table = tableYX, calls = []\<rparr> (record_of ''X'' past0 False False)
          ''tbl'') =
     Some (Multi [exec_error (record_of ''X'' past0 False False) (New ''Request error''),
       Wrap (New ''Internal error'')
         (''conn.UpdateItem id=X table_name=tbl failure_reason='' @
          Error (exec_error (record_of ''X'' past0 False False) (New ''Request error'')))])"
proof -
  let ?w = "\<lparr>table = tableYX, calls = []\<rparr>"
  let ?X = "record_of ''X'' past0 False False"
  have k: "ID ?X = ''X''" by (simp add: record_of_def)
  have l0: "Lock env0 ?w ''tbl'' (ID ?X) = (None, snd (Lock env0 ?w ''tbl'' (ID ?X)))"
    by (rule Lock_no_fault) (simp add: env0_def)
  have lF: "Lock envFR ?w ''tbl'' (ID ?X) = (None, snd (Lock envFR ?w ''tbl'' (ID ?X)))"
    by (rule Lock_no_fault) (simp add: envFR_def locking_call_def)
  have c: "clientF h (Method ?X) (URL ?X) (Headers ?X) (Payload ?X) = Inl (New ''Request error'')"
    for h by (simp add: clientF_def)
  have f0: "db_fault env0 h c = None" for h c by (simp add: env0_def)
  have fF: "db_fault envFR h (failure_call ''tbl'' ''X'' reason) = Some (New ''Internal error'')"
    for h reason by (simp add: envFR_def failure_call_def)
  from C3_execution_failure [where client = clientF and e = "New ''Request error''", OF l0 c surjective_pairing]
  have a: "fst (execute env0 clientF ?w ?X ''tbl'') = Some (exec_error ?X (New ''Request error''))"
    by (simp add: f0)
  from C3_execution_failure [where client = clientF and e = "New ''Request error''", OF lF c surjective_pairing]
  have b: "fst (execute envFR clientF ?w ?X ''tbl'') =
     Some (Multi [exec_error ?X (New ''Request error''),
       Wrap (New ''Internal error'')
         (''conn.UpdateItem id=X table_name=tbl failure_reason='' @
          Error (exec_error ?X (New ''Request error'')))])"
    by (simp add: k fF)
  from a b show ?thesis by blast
qed

text \<open>
  C4. When claim and execution of a record succeed: for a persistent record the task
  writes \<open>ExecutionResult\<close> and \<open>ExecutedAt\<close> and does not delete; when that write succeeds
  the record is in the table with the result set and \<open>Locking\<close> still true, and so is
  whatever \<open>Get\<close> returns for it. For a record that is not persistent the task deletes it
  and writes no result; when the delete succeeds the table has no item with its key.
\<close>

theorem C4_finalize:
  assumes lock: "Lock env w tbl (ID req) = (None, w1)"
    and exec: "client (calls w1) (Method req) (URL req) (Headers req) (Payload req) = Inr resp"
    and res: "execute env client w req tbl = (r, w3)"
  shows "(PersistentStore req \<longrightarrow>
            (\<forall>result. json_Marshal env resp = Inr result \<longrightarrow>
               calls w3 = calls w1 @ [client_call req,
                  result_call tbl (ID req) result (Format (Now env (calls w1 @ [client_call req])))] \<and>
               (db_fault env (calls w1 @ [client_call req])
                  (result_call tbl (ID req) result
                     (Format (Now env (calls w1 @ [client_call req])))) = None \<longrightarrow>
                r = None \<and>
                (\<exists>it. lookup w3 (ID req) = Some it \<and>
                      it ''ExecutionResult'' = Some (S result) \<and>
                      it ''ExecutedAt'' = Some (S (Format (Now env (calls w1 @ [client_call req])))) \<and>
                      it ''Locking'' = Some (BOOL True)) \<and>
                (\<forall>rec. fst (Get env w3 tbl (ID req)) = Inr rec \<longrightarrow>
                       ExecutionResult rec = result \<and> Locking rec)))) \<and>
         (\<not> PersistentStore req \<longrightarrow>
            calls w3 = calls w1 @ [client_call req, DeleteItem tbl (ID req)] \<and>
            (db_fault env (calls w1 @ [client_call req]) (DeleteItem tbl (ID req)) = None \<longrightarrow>
             r = None \<and> lookup w3 (ID req) = None))"
proof -
  let ?w2 = "logged w1 (client_call req)"
  from Lock_None_lookup [OF lock] obtain it
    where it: "lookup w1 (ID req) = Some it" "it ''Locking'' = Some (BOOL True)" by blast
  note xr = execRequest_Inr [of client w1 req resp, OF exec]
  have P: "calls w3 = calls w1 @ [client_call req,
              result_call tbl (ID req) result (Format (Now env (calls w1 @ [client_call req])))] \<and>
           (db_fault env (calls w1 @ [client_call req])
              (result_call tbl (ID req) result
                 (Format (Now env (calls w1 @ [client_call req])))) = None \<longrightarrow>
            r = None \<and>
            (\<exists>it. lookup w3 (ID req) = Some it \<and>
                  it ''ExecutionResult'' = Some (S result) \<and>
                  it ''ExecutedAt'' = Some (S (Format (Now env (calls w1 @ [client_call req])))) \<and>
                  it ''Locking'' = Some (BOOL True)) \<and>
            (\<forall>rec. fst (Get env w3 tbl (ID req)) = Inr rec \<longrightarrow>
                   ExecutionResult rec = result \<and> Locking rec))"
    if p: "PersistentStore req" and j: "json_Marshal env resp = Inr result" for result
  proof -
    let ?c = "result_call tbl (ID req) result (Format (Now env (calls ?w2)))"
    have x: "execute env client w req tbl =
      (case updateResult env ?w2 tbl (ID req) resp (Now env (calls ?w2)) of
        (Some e, w3) \<Rightarrow>
          (Some (Wrap e (''storeResult req['' @ req_ToString req @ ''] resp['' @
                         resp_ToString resp @ '']'')), w3)
      | (None, w3) \<Rightarrow> (None, w3))"
      by (rule execute_persistent [OF lock xr p])
    show ?thesis
    proof (cases "db_fault env (calls ?w2) ?c")
      case None
      with x res have r: "r = None"
        and w3: "w3 = (logged ?w2 ?c)\<lparr>table := update_table (ID req)
              [(''ExecutionResult'', '':r''), (''ExecutedAt'', '':e'')]
              [('':r'', S result), ('':e'', S (Format (Now env (calls ?w2))))] (table ?w2)\<rparr>"
        by (simp_all add: updateResult_cases [OF j])
      from w3 it have l: "\<exists>it. lookup w3 (ID req) = Some it \<and>
                  it ''ExecutionResult'' = Some (S result) \<and>
                  it ''ExecutedAt'' = Some (S (Format (Now env (calls ?w2)))) \<and>
                  it ''Locking'' = Some (BOOL True)"
        by (simp add: lookup_update_table) (simp add: lookup_def)
      then have "\<forall>rec. fst (Get env w3 tbl (ID req)) = Inr rec \<longrightarrow>
                   ExecutionResult rec = result \<and> Locking rec"
        using Get_Inr [of env w3 tbl "ID req"] Unmarshal_ExecutionResult Unmarshal_Locking
        by fastforce
      with r w3 l show ?thesis by simp
    next
      case (Some e2)
      with x res show ?thesis by (auto simp: updateResult_cases [OF j])
    qed
  qed
  have Q: "calls w3 = calls w1 @ [client_call req, DeleteItem tbl (ID req)] \<and>
            (db_fault env (calls w1 @ [client_call req]) (DeleteItem tbl (ID req)) = None \<longrightarrow>
             r = None \<and> lookup w3 (ID req) = None)"
    if p: "\<not> PersistentStore req"
    using execute_transient [OF lock xr p] res
    by (auto simp: removeRequest_cases lookup_filter_key split: option.splits)
  from P Q show ?thesis by blast
qed

theorem C4_finalize_witness:
  "fst (execute env0 client0 \<lparr>table = tableP, calls = []\<rparr> (record_of ''P'' past0 False True)
          ''tbl'') = None \<and>
   (\<exists>it. lookup (snd (execute env0 client0 \<lparr>table = tableP, calls = []\<rparr>
                         (record_of ''P'' past0 False True) ''tbl'')) ''P'' = Some it \<and>
         it ''ExecutionResult'' = Some (S json200) \<and> it ''Locking'' = Some (BOOL True)) \<and>
   fst (execute env0 client0 \<lparr>table = tableYX, calls = []\<rparr> (record_of ''X'' past0 False False)
          ''tbl'') = None \<and>
   lookup (snd (execute env0 client0 \<lparr>table = tableYX, calls = []\<rparr>
                  (record_of ''X'' past0 False False) ''tbl'')) ''X'' = None"
proof -
  let ?P = "record_of ''P'' past0 False True"
  let ?X = "record_of ''X'' past0 False False"
  have f0: "db_fault env0 h c = None" for h c by (simp add: env0_def)
  have lP: "Lock env0 \<lparr>table = tableP, calls = []\<rparr> ''tbl'' (ID ?P) =
              (None, snd (Lock env0 \<lparr>table = tableP, calls = []\<rparr> ''tbl'' (ID ?P)))"
    by (rule Lock_no_fault) (rule f0)
  have lX: "Lock env0 \<lparr>table = tableYX, calls = []\<rparr> ''tbl'' (ID ?X) =
              (None, snd (Lock env0 \<lparr>table = tableYX, calls = []\<rparr> ''tbl'' (ID ?X)))"
    by (rule Lock_no_fault) (rule f0)
  have c: "client0 h (Method r) (URL r) (Headers r) (Payload r) = Inr \<lparr>Code = 200, Body = []\<rparr>"
    for h r by (simp add: client0_def)
  have j: "json_Marshal env0 \<lparr>Code = 200, Body = []\<rparr> = Inr json200"
    by (simp add: env0_def json_plain_200)
  from C4_finalize [where client = client0 and resp = "\<lparr>Code = 200, Body = []\<rparr>",
      OF lP c surjective_pairing] j
  have a: "fst (execute env0 client0 \<lparr>table = tableP, calls = []\<rparr> ?P ''tbl'') = None \<and>
     (\<exists>it. lookup (snd (execute env0 client0 \<lparr>table = tableP, calls = []\<rparr> ?P ''tbl'')) ''P'' =
             Some it \<and>
           it ''ExecutionResult'' = Some (S json200) \<and> it ''Locking'' = Some (BOOL True))"
    by (simp add: f0 record_of_def) blast
  from C4_finalize [where client = client0 and resp = "\<lparr>Code = 200, Body = []\<rparr>",
      OF lX c surjective_pairing]
  have b: "fst (execute env0 client0 \<lparr>table = tableYX, calls = []\<rparr> ?X ''tbl'') = None \<and>
     lookup (snd (execute env0 client0 \<lparr>table = tableYX, calls = []\<rparr> ?X ''tbl'')) ''X'' = None"
    by (simp add: f0 record_of_def)
  from a b show ?thesis by blast
qed

text \<open>
  C5. When the due query succeeds, the aggregate \<open>TriggerAPI\<close> returns is non-nil if and only
  if the task of at least one record returned an error, and a task returns an error if and
  only if its claim, its execution or its finalising write failed. An empty due set gives
  nil. The errors of the aggregate are the wrapped errors of the failed tasks, one each, and
  its message joins their messages.
\<close>

theorem C5_aggregate:
  assumes fetch: "FetchSchedRequests env w (TableName conf) (Now env (calls w)) = (Inr requests, w0)"
  shows "(fst (TriggerAPI env conf client w) \<noteq> None \<longleftrightarrow>
            (\<exists>g \<in> set (outcomes env client (TableName conf) w0 requests). g \<noteq> None)) \<and>
         (\<forall>w' req. fst (execute env client w' req (TableName conf)) \<noteq> None \<longleftrightarrow>
            step_failed env client w' req (TableName conf)) \<and>
         (requests = [] \<longrightarrow> fst (TriggerAPI env conf client w) = None) \<and>
         Errors (fst (TriggerAPI env conf client w)) =
           concat (map2 (\<lambda>r g. case g of None \<Rightarrow> [] | Some e \<Rightarrow> [task_error r (TableName conf) e])
                     requests (outcomes env client (TableName conf) w0 requests)) \<and>
         (\<forall>a. fst (TriggerAPI env conf client w) = Some a \<longrightarrow>
            Error a = joinSep ''; '' (map Error (Errors (fst (TriggerAPI env conf client w)))))"
proof -
  let ?errc = "fst (run_tasks env client (TableName conf) w0 requests)"
  have W: "\<forall>g \<in> set ?errc. \<exists>e msg. g = Wrap e msg"
    using run_tasks_Wrap by blast
  have T: "fst (TriggerAPI env conf client w) = collect None ?errc"
    by (simp add: TriggerAPI_ok [OF fetch])
  have "fst (TriggerAPI env conf client w) \<noteq> None \<longleftrightarrow> ?errc \<noteq> []"
    by (simp add: T collect_None_iff [OF W])
  then have 1: "fst (TriggerAPI env conf client w) \<noteq> None \<longleftrightarrow>
      (\<exists>g \<in> set (outcomes env client (TableName conf) w0 requests). g \<noteq> None)"
    by (simp add: run_tasks_Nil_iff)
  have 3: "requests = [] \<longrightarrow> fst (TriggerAPI env conf client w) = None"
    by (simp add: T collect_def)
  have 4: "Errors (fst (TriggerAPI env conf client w)) =
           concat (map2 (\<lambda>r g. case g of None \<Rightarrow> [] | Some e \<Rightarrow> [task_error r (TableName conf) e])
                     requests (outcomes env client (TableName conf) w0 requests))"
    by (simp only: TriggerAPI_Errors [OF fetch] run_tasks_outcomes)
  have 5: "\<forall>a. fst (TriggerAPI env conf client w) = Some a \<longrightarrow>
            Error a = joinSep ''; '' (map Error (Errors (fst (TriggerAPI env conf client w))))"
    by (auto simp: Errors_def Error_extract [symmetric])
  from 1 3 4 5 execute_fails_iff show ?thesis by blast
qed

theorem C5_aggregate_witness:
  "fst (TriggerAPI envX conf0 client0 \<lparr>table = tableYX, calls = []\<rparr>) \<noteq> None \<and>
   fst (TriggerAPI env0 conf0 client0 \<lparr>table = [], calls = []\<rparr>) = None"
proof -
  let ?Y = "record_of ''Y'' past0 False False"
  let ?X = "record_of ''X'' past0 False False"
  let ?wa = "logged \<lparr>table = tableYX, calls = []\<rparr> (due_call ''tbl'' clock0)"
  have "fst (execute envX client0 w ?X ''tbl'') \<noteq> None" for w
    using execute_lock_fails [of envX w "''tbl''" ?X _ _ client0] Lock_envX [of w "''tbl''"]
    by (simp add: record_of_def)
  then have "\<exists>g \<in> set (outcomes envX client0 (TableName conf0) ?wa ([?Y] @ ?X # [])). g \<noteq> None"
    by (simp add: outcomes_Cons conf0_def del: outcomes.simps(2))
  with C5_aggregate [OF fetch_envX, of client0]
  have a: "fst (TriggerAPI envX conf0 client0 \<lparr>table = tableYX, calls = []\<rparr>) \<noteq> None"
    by blast
  from C5_aggregate [OF fetch_env0_empty, of client0]
  have b: "fst (TriggerAPI env0 conf0 client0 \<lparr>table = [], calls = []\<rparr>) = None"
    by blast
  from a b show ?thesis by blast
qed

text \<open>
  C6. When the due query fails, \<open>TriggerAPI\<close> returns its error wrapped, and the scan is the
  only call of the pass: no record is claimed, the \<open>Requester\<close> is not called, and the table
  is as it was.
\<close>

theorem C6_query_failure:
  assumes "FetchSchedRequests env w (TableName conf) (Now env (calls w)) = (Inl e, w0)"
  shows "TriggerAPI env conf client w = (Some (Wrap e ''fetchSchedRequests''), w0) \<and>
         calls w0 = calls w @ [due_call (TableName conf) (Now env (calls w))] \<and>
         table w0 = table w"
  using assms FetchSchedRequests_world [OF assms] by (simp add: TriggerAPI_def)

theorem C6_query_failure_witness:
  "TriggerAPI envS conf0 client0 \<lparr>table = tableYX, calls = []\<rparr> =
     (Some (Wrap (Wrap (New ''internal error'') ''conn.Scan table_name=tbl input={}'')
              ''fetchSchedRequests''),
      \<lparr>table = tableYX, calls = [due_call ''tbl'' clock0]\<rparr>)"
proof -
  have "FetchSchedRequests envS \<lparr>table = tableYX, calls = []\<rparr> (TableName conf0)
          (Now envS (calls \<lparr>table = tableYX, calls = []\<rparr>)) =
        (Inl (Wrap (New ''internal error'') ''conn.Scan table_name=tbl input={}''),
         \<lparr>table = tableYX, calls = [due_call ''tbl'' clock0]\<rparr>)"
    by (simp add: FetchSchedRequests_def conn_Scan_def envS_def env0_def conf0_def due_call_def
        logged_def)
  from C6_query_failure [OF this, of client0] show ?thesis by simp
qed

text \<open>
  C7. \<open>Get\<close> on a key the table does not have: the backend answers with an empty item and
  no error, \<open>Get\<close> decodes it, and the caller receives a record of zero values instead of a
  not-found error. When the backend fails the lookup, \<open>Get\<close> returns the wrapped error.
\<close>

theorem C7_Get_absent:
  "fst (Get env0 \<lparr>table = tableYX, calls = []\<rparr> ''tbl'' ''missing'') =
     Inr \<lparr>ID = [], CreatedAt = zeroTime, ExecutedAt = zeroTime, EffectiveAfter = zeroTime,
          Locking = False, FailureReason = [], Method = [], URL = [], Payload = [],
          Headers = [], PersistentStore = False, ExecutionResult = []\<rparr> \<and>
   fst (Get envG \<lparr>table = tableYX, calls = []\<rparr> ''tbl'' ''X'') =
     Inl (Wrap (New ''ResourceNotFoundException'') ''conn.GetItem table_name=tbl id=X'')"
  by (simp add: Get_def conn_GetItem_def env0_def envG_def tableYX_def has_key_def item_of_def
      UnmarshalMap_def bind_err_def decodeString_def decodeBool_def decodeTime_def decodeMap_def)

text \<open>
  C8. The headers of the caller are attached and a configured token wins over the caller's
  \<open>Authorization\<close>, since \<open>DoRequest\<close> applies it with \<open>Set\<close>. The configured user agent
  does not win over the caller's \<open>User-Agent\<close>: \<open>DoRequest\<close> applies it with \<open>Add\<close>, after
  the caller's value, and the first value is the one \<open>Get\<close> reads and the one sent. At a
  client with user agent \<open>citium\<close> and token \<open>secret\<close> and a caller that gives both headers,
  the outgoing request has the user agents \<open>caller\<close> and \<open>citium\<close> in this order, the server
  reads \<open>caller\<close>, and \<open>Authorization\<close> is the configured bearer token.
\<close>

theorem C8_user_agent_not_overridden:
  "requestHeader httpUT [(''User-Agent'', ''caller''), (''Authorization'', ''Basic abc'')]
     ''User-Agent'' = Some [''caller'', ''citium''] \<and>
   header_Get (requestHeader httpUT [(''User-Agent'', ''caller''), (''Authorization'', ''Basic abc'')])
     ''User-Agent'' \<noteq> userAgent httpUT \<and>
   DoRequest netEcho httpUT [] ''GET'' ''/ping''
     [(''User-Agent'', ''caller''), (''Authorization'', ''Basic abc'')] [] =
     Inr \<lparr>Code = 200, Body = ''caller''\<rparr> \<and>
   header_Get (requestHeader httpUT [(''User-Agent'', ''caller''), (''Authorization'', ''Basic abc'')])
     ''Authorization'' = ''Bearer '' @ token httpUT"
proof -
  let ?hs = "[(''User-Agent'', ''caller''), (''Authorization'', ''Basic abc'')]"
  have t: "token httpUT = ''secret''" "userAgent httpUT = ''citium''"
    by (simp_all add: httpUT_def)
  have cv: "caller_values ?hs ''User-Agent'' = [''caller'']"
    by (simp add: caller_values_def canon_UA canon_Auth)
  have ua: "requestHeader httpUT ?hs ''User-Agent'' = Some [''caller'', ''citium'']"
    by (simp add: requestHeader_values t cv)
  then have g: "header_Get (requestHeader httpUT ?hs) ''User-Agent'' = ''caller''"
    by (simp add: header_Get_def canon_UA)
  have au: "header_Get (requestHeader httpUT ?hs) ''Authorization'' = ''Bearer '' @ token httpUT"
    by (simp add: header_Get_def canon_Auth requestHeader_values t)
  have d: "DoRequest netEcho httpUT [] ''GET'' ''/ping'' ?hs [] =
             Inr \<lparr>Code = 200, Body = ''caller''\<rparr>"
    by (simp add: DoRequest_def netEcho_def Let_def g)
  from ua g au d show ?thesis by (simp add: t)
qed

text \<open>
  C9. The three updates write only their own attributes of the item with the key and leave
  every other attribute and every other item as it was: \<open>setLocking\<close> writes \<open>Locking\<close>,
  \<open>logFailure\<close> writes \<open>FailureReason\<close>, \<open>updateResult\<close> writes \<open>ExecutionResult\<close> and
  \<open>ExecutedAt\<close> in one update. An update the backend fails leaves the table as it was.
\<close>

theorem C9_partial_updates:
  assumes "list_ex (has_key k) (table w)"
  shows "table (snd (setLocking env w tbl k b)) =
           (if db_fault env (calls w) (locking_call tbl k b) = None
            then map (\<lambda>it. if has_key k it then it(''Locking'' \<mapsto> BOOL b) else it) (table w)
            else table w) \<and>
         table (snd (logFailure env w tbl k lerr)) =
           (if db_fault env (calls w) (failure_call tbl k (Error lerr)) = None
            then map (\<lambda>it. if has_key k it then it(''FailureReason'' \<mapsto> S (Error lerr)) else it)
                   (table w)
            else table w) \<and>
         (\<forall>result. json_Marshal env resp = Inr result \<longrightarrow>
            table (snd (updateResult env w tbl k resp current)) =
              (if db_fault env (calls w) (result_call tbl k result (Format current)) = None
               then map (\<lambda>it. if has_key k it
                              then it(''ExecutionResult'' \<mapsto> S result,
                                      ''ExecutedAt'' \<mapsto> S (Format current))
                              else it) (table w)
               else table w))"
  using assms
  by (simp add: setLocking_table logFailure_table updateResult_table update_table_def)

theorem C9_partial_updates_witness:
  "table (snd (setLocking env0 \<lparr>table = tableYX, calls = []\<rparr> ''tbl'' ''X'' True)) =
     [item_of ''Y'' ''2018-09-02T00:02:03Z'' False False,
      (item_of ''X'' ''2018-09-02T00:02:03Z'' False False)(''Locking'' \<mapsto> BOOL True)] \<and>
   table (snd (updateResult env0 \<lparr>table = tableYX, calls = []\<rparr> ''tbl'' ''X''
                 \<lparr>Code = 200, Body = []\<rparr> clock0)) =
     [item_of ''Y'' ''2018-09-02T00:02:03Z'' False False,
      (item_of ''X'' ''2018-09-02T00:02:03Z'' False False)
        (''ExecutionResult'' \<mapsto> S json200, ''ExecutedAt'' \<mapsto> S ''2018-09-03T00:02:03Z'')]"
proof -
  have e: "list_ex (has_key ''X'') (table \<lparr>table = tableYX, calls = []\<rparr>)"
    by (simp add: tableYX_def has_key_def item_of_def)
  have y: "\<not> has_key ''X'' (item_of ''Y'' ''2018-09-02T00:02:03Z'' False False)"
    "has_key ''X'' (item_of ''X'' ''2018-09-02T00:02:03Z'' False False)"
    by (simp_all add: has_key_def item_of_def)
  have f0: "db_fault env0 h c = None" for h c by (simp add: env0_def)
  have j: "json_Marshal env0 \<lparr>Code = 200, Body = []\<rparr> = Inr json200"
    by (simp add: env0_def json_plain_200)
  from C9_partial_updates [OF e, of env0 "''tbl''" True "New []" "\<lparr>Code = 200, Body = []\<rparr>" clock0] j
  show ?thesis
    by (simp add: f0 tableYX_def y Format_clock0)
qed

text \<open>
  C10. A call that completes, whatever its status code, makes \<open>DoRequest\<close> return the code
  and the body with no error; \<open>execute\<close> then takes the execution as successful: for a
  record that is not persistent it deletes the record, writes no failure reason and returns
  no error.
\<close>

theorem C10_error_status_is_success:
  assumes parse: "url_Parse nt (URL req) = Inr rel"
    and new: "http_NewRequest nt (Method req) (ResolveReference nt (baseURL c) rel) = None"
    and lock: "Lock env w tbl (ID req) = (None, w1)"
    and do: "Do nt (calls w1)
               \<lparr>req_Method = Method req, req_URL = ResolveReference nt (baseURL c) rel,
                Header = requestHeader c (Headers req), req_Body = Payload req\<rparr> = Inr raw"
    and read: "ReadAll raw = Inr text"
    and transient: "\<not> PersistentStore req"
    and del: "db_fault env (calls w1 @ [client_call req]) (DeleteItem tbl (ID req)) = None"
  shows "DoRequest nt c (calls w1) (Method req) (URL req) (Headers req) (Payload req) =
           Inr \<lparr>Code = StatusCode raw, Body = text\<rparr> \<and>
         fst (execute env (DoRequest nt c) w req tbl) = None \<and>
         calls (snd (execute env (DoRequest nt c) w req tbl)) =
           calls w1 @ [client_call req, DeleteItem tbl (ID req)] \<and>
         lookup (snd (execute env (DoRequest nt c) w req tbl)) (ID req) = None"
proof -
  note d = DoRequest_completes [OF parse new do read]
  note x = execute_transient [OF lock execRequest_Inr [of "DoRequest nt c" w1 req, OF d] transient]
  from x del show ?thesis
    by (simp add: d removeRequest_cases lookup_filter_key)
qed

theorem C10_error_status_is_success_witness:
  "DoRequest net500 httpU
     (calls (snd (Lock env0 \<lparr>table = tableYX, calls = []\<rparr> ''tbl'' ''X'')))
     ''GET'' ''/ping'' [] [] = Inr \<lparr>Code = 500, Body = ''Internal Server Error''\<rparr> \<and>
   fst (execute env0 (DoRequest net500 httpU) \<lparr>table = tableYX, calls = []\<rparr>
          (record_of ''X'' past0 False False) ''tbl'') = None \<and>
   lookup (snd (execute env0 (DoRequest net500 httpU) \<lparr>table = tableYX, calls = []\<rparr>
                  (record_of ''X'' past0 False False) ''tbl'')) ''X'' = None"
proof -
  let ?w = "\<lparr>table = tableYX, calls = []\<rparr>"
  let ?X = "record_of ''X'' past0 False False"
  have f0: "db_fault env0 h c = None" for h c by (simp add: env0_def)
  have parse: "url_Parse net500 (URL ?X) = Inr ''/ping''"
    by (simp add: net500_def record_of_def)
  have new: "http_NewRequest net500 (Method ?X) (ResolveReference net500 (baseURL httpU) ''/ping'') = None"
    by (simp add: net500_def)
  have lock: "Lock env0 ?w ''tbl'' (ID ?X) = (None, snd (Lock env0 ?w ''tbl'' (ID ?X)))"
    by (rule Lock_no_fault) (rule f0)
  have do: "Do net500 (calls (snd (Lock env0 ?w ''tbl'' (ID ?X))))
               \<lparr>req_Method = Method ?X, req_URL = ResolveReference net500 (baseURL httpU) ''/ping'',
                Header = requestHeader httpU (Headers ?X), req_Body = Payload ?X\<rparr> =
            Inr \<lparr>StatusCode = 500, ReadAll = Inr ''Internal Server Error'', Close = None\<rparr>"
    by (simp add: net500_def)
  have read: "ReadAll \<lparr>StatusCode = 500, ReadAll = Inr ''Internal Server Error'', Close = None\<rparr> =
                Inr ''Internal Server Error''"
    by simp
  have transient: "\<not> PersistentStore ?X" by (simp add: record_of_def)
  from C10_error_status_is_success [OF parse new lock do read transient f0] show ?thesis
    by (simp add: record_of_def)
qed

end
